theory Spec2Isabelle
  imports Main "HOL-Library.Multiset" "HOL-Library.Sublist"
begin

section \<open>The script \<open>await.py\<close> and what it runs on\<close>

text \<open>
  \<open>await.py\<close> is one script: it walks a directory with \<open>os.walk\<close>, tokenizes every
  file named \<open>*.py\<close> with \<open>tokenize.tokenize\<close>, prints one line for every NAME token
  spelled \<open>await\<close> or \<open>async\<close>, one line for every file that does not tokenize, and three
  totals at the end.

  The embedding follows the script line by line. Its three counters and its standard
  output are the state; an exception that no \<open>except\<close> clause takes ends the run and is
  an outcome of its own. What the script gets from outside (the file system, the
  tokenizer, the current directory behind \<open>os.path.abspath\<close>) is a parameter, the
  record \<open>world\<close>.
\<close>

subsection \<open>Exceptions\<close>

text \<open>
  The script names two exception classes, in \<open>except (SyntaxError, UnicodeDecodeError)\<close>
  (line 28). \<open>SyntaxError\<close> stands for that class and its subclasses (\<open>IndentationError\<close>,
  \<open>TabError\<close>), which the clause takes as well. \<open>OtherException\<close> stands for an exception
  of any class that the clause does not match, such as \<open>tokenize.TokenError\<close> (which
  derives from \<open>Exception\<close> directly) or \<open>OSError\<close>. Every exception carries the text
  that \<open>str(ex)\<close> gives.
\<close>

datatype exn =
    SyntaxError string
  | UnicodeDecodeError string
  | OtherException string

subsection \<open>Tokens\<close>

text \<open>
  \<open>tokenize.TokenInfo\<close> is a named tuple \<open>(type, string, start, end, line)\<close>; \<open>start\<close> and
  \<open>end\<close> are pairs (row, column) of non-negative integers. The fields carry the prefix
  \<open>tok_\<close> here. \<open>token.NAME\<close> is the integer 1.
\<close>

record tokeninfo =
  tok_type :: int
  tok_string :: string
  tok_start :: "nat \<times> nat"
  tok_end :: "nat \<times> nat"
  tok_line :: string

text \<open>The constructor of the named tuple.\<close>

definition TokenInfo :: "int \<Rightarrow> string \<Rightarrow> nat \<times> nat \<Rightarrow> nat \<times> nat \<Rightarrow> string \<Rightarrow> tokeninfo" where
  "TokenInfo ty s start end line =
     \<lparr>tok_type = ty, tok_string = s, tok_start = start, tok_end = end, tok_line = line\<rparr>"

definition NAME :: int where
  "NAME = 1"

text \<open>
  \<open>tokenize.tokenize(f.readline)\<close> is a generator: it yields tokens and then either is
  exhausted or raises. The pair holds the tokens yielded and the exception that ended
  the iteration, if one did. \<open>list(...)\<close> (line 27) runs the generator to its end: it
  returns the tokens when the generator is exhausted, and lets the exception through
  otherwise, with the tokens yielded before it lost.
\<close>

type_synonym 'a generator = "'a list \<times> exn option"

definition py_list :: "'a generator \<Rightarrow> exn + 'a list" where
  "py_list g = (case snd g of None \<Rightarrow> Inr (fst g) | Some ex \<Rightarrow> Inl ex)"

subsection \<open>The directory tree and \<open>os.walk\<close>\<close>

text \<open>
  What \<open>os.walk\<close> sees of a directory entry: whether \<open>is_dir()\<close> holds (it follows
  symbolic links), whether the entry is a symbolic link, and, for a real directory,
  whether \<open>scandir\<close> can list it and what it lists. \<open>Symlink b\<close> is a symbolic link, \<open>b\<close>
  telling whether it resolves to a directory; a link into a cycle or to nowhere has
  \<open>b = False\<close>, since \<open>is_dir()\<close> then raises \<open>OSError\<close> and \<open>os.walk\<close> takes the entry
  for a non-directory.
\<close>

datatype entry =
    File
  | Dir bool "(string \<times> entry) list"
  | Symlink bool

fun is_dir :: "entry \<Rightarrow> bool" where
  "is_dir File = False"
| "is_dir (Dir readable entries) = True"
| "is_dir (Symlink to_dir) = to_dir"

fun islink :: "entry \<Rightarrow> bool" where
  "islink (Symlink to_dir) = True"
| "islink e = False"

text \<open>\<open>str.startswith\<close> and \<open>str.endswith\<close> with one string argument.\<close>

definition startswith :: "string \<Rightarrow> string \<Rightarrow> bool" where
  "startswith s p = (take (length p) s = p)"

definition endswith :: "string \<Rightarrow> string \<Rightarrow> bool" where
  "endswith s p = (length p \<le> length s \<and> drop (length s - length p) s = p)"

text \<open>\<open>os.path.join\<close> of \<open>posixpath\<close>, for two components.\<close>

definition path_join :: "string \<Rightarrow> string \<Rightarrow> string" where
  "path_join a b =
     (if startswith b ''/'' then b
      else if a = [] \<or> endswith a ''/'' then a @ b
      else a @ ''/'' @ b)"

text \<open>
  \<open>os.walk\<close> belongs to the Python standard library (\<open>Lib/os.py\<close> of CPython), not to
  the script; \<open>walk\<close> follows it as line 18 calls it, with \<open>topdown=True\<close>,
  \<open>onerror=None\<close> and \<open>followlinks=False\<close> left at their defaults. It yields one triple
  (dirpath, dirnames, filenames) for every directory it lists, parents first. When
  \<open>scandir\<close> raises \<open>OSError\<close>, \<open>onerror\<close> being \<open>None\<close>, the error is dropped and nothing
  is yielded for that directory (``by default errors from the \<open>os.scandir()\<close> call are
  ignored''). An entry that is a directory by \<open>is_dir()\<close> is named in \<open>dirnames\<close>, the
  others in \<open>filenames\<close>; a directory is walked in its turn unless \<open>islink\<close> holds of it.
  The root is given as what its path leads to, a directory or not; on a path that is not
  a directory \<open>scandir\<close> raises and nothing is yielded.
\<close>

definition dirnames :: "(string \<times> entry) list \<Rightarrow> string list" where
  "dirnames entries = map fst (filter (\<lambda>(name, e). is_dir e) entries)"

definition filenames :: "(string \<times> entry) list \<Rightarrow> string list" where
  "filenames entries = map fst (filter (\<lambda>(name, e). \<not> is_dir e) entries)"

type_synonym walked = "string \<times> string list \<times> string list"

fun walk :: "string \<Rightarrow> entry \<Rightarrow> walked list"
  and walk_into :: "string \<Rightarrow> (string \<times> entry) list \<Rightarrow> walked list" where
  "walk dirpath File = []"
| "walk dirpath (Symlink to_dir) = []"
| "walk dirpath (Dir readable entries) =
     (if readable then (dirpath, dirnames entries, filenames entries) # walk_into dirpath entries
      else [])"
| "walk_into dirpath [] = []"
| "walk_into dirpath ((name, e) # entries) =
     (if is_dir e \<and> \<not> islink e then walk (path_join dirpath name) e else [])
     @ walk_into dirpath entries"

subsection \<open>Printing\<close>

text \<open>
  \<open>str\<close> of a non-negative integer is its decimal numeral. \<open>str\<close> of a pair of integers,
  which is how \<open>format\<close> renders \<open>tok.start\<close>, is \<open>(r, c)\<close> with a comma and one space.
\<close>

definition digit :: "nat \<Rightarrow> char" where
  "digit d = ''0123456789'' ! d"

function str_nat :: "nat \<Rightarrow> string" where
  "str_nat n = (if n < 10 then [digit n] else str_nat (n div 10) @ [digit (n mod 10)])"
  by pat_completeness auto
termination
  by (relation "measure id") auto

declare str_nat.simps [simp del]

text \<open>Reading a decimal numeral back, to say that \<open>str_nat\<close> writes one.\<close>

definition digit_value :: "char \<Rightarrow> nat" where
  "digit_value c = of_char c - 48"

definition of_decimal :: "string \<Rightarrow> nat" where
  "of_decimal s = foldl (\<lambda>n c. 10 * n + digit_value c) 0 s"

definition str_pair :: "nat \<times> nat \<Rightarrow> string" where
  "str_pair p = ''('' @ str_nat (fst p) @ '', '' @ str_nat (snd p) @ '')''"

text \<open>
  Standard output is the list of the texts written by the calls of \<open>print\<close>, one element
  for each call, without the newline that ends it. \<open>print\<close> joins its arguments with one
  space; \<open>print()\<close> writes the empty text.
\<close>

record state =
  stdout :: "string list"
  c_error :: nat
  c_async :: nat
  c_await :: nat

fun sep_join :: "string list \<Rightarrow> string" where
  "sep_join [] = []"
| "sep_join [a] = a"
| "sep_join (a # b # args) = a @ '' '' @ sep_join (b # args)"

definition print :: "string list \<Rightarrow> state \<Rightarrow> state" where
  "print args st = st\<lparr>stdout := stdout st @ [sep_join args]\<rparr>"

text \<open>\<open>'{}\t{}: {}'.format(a, b, c)\<close> of line 37, the third argument a pair of integers.\<close>

definition format_match :: "string \<Rightarrow> string \<Rightarrow> nat \<times> nat \<Rightarrow> string" where
  "format_match a b c = a @ [CHR 0x09] @ b @ '': '' @ str_pair c"

subsection \<open>The world and the outcome of a run\<close>

text \<open>
  \<open>abspath\<close> is \<open>os.path.abspath\<close>, which depends on the current directory. \<open>scandir\<close>
  gives the directory tree found at a path, as \<open>os.walk\<close> sees it. \<open>fopen\<close> is
  \<open>open(filename, 'rb')\<close> together with the reading of the file: the bytes of the file,
  or the exception that \<open>open\<close> raises. \<open>tokenize\<close> is \<open>tokenize.tokenize(f.readline)\<close>,
  of the Python version that runs the script, as a function of the name of the open file
  (which \<open>tokenize\<close> reads off \<open>f.readline\<close> and writes into some messages) and of its
  bytes.
\<close>

record world =
  abspath :: "string \<Rightarrow> string"
  scandir :: "string \<Rightarrow> entry"
  fopen :: "string \<Rightarrow> exn + string"
  tokenize :: "string \<Rightarrow> string \<Rightarrow> tokeninfo generator"

text \<open>
  A run ends in one of three ways: it reaches the end of the script, an exception leaves
  it, or \<open>sys.exit\<close> is called. Each outcome keeps the state reached.
\<close>

datatype outcome =
    Finished state
  | Uncaught exn state
  | SystemExit int state

section \<open>The script\<close>

text \<open>Lines 34 to 44: the body of \<open>for tok in tokens\<close>.\<close>

definition scan_token :: "string \<Rightarrow> tokeninfo \<Rightarrow> state \<Rightarrow> state" where
  "scan_token filename tok st =
     (if tok_type tok = NAME \<and> tok_string tok \<in> set [''await'', ''async''] then
        let st1 = print [format_match (tok_string tok) filename (tok_start tok)] st;
            st2 = (if tok_string tok = ''await''
                   then st1\<lparr>c_await := c_await st1 + 1\<rparr> else st1);
            st3 = (if tok_string tok = ''async''
                   then st2\<lparr>c_async := c_async st2 + 1\<rparr> else st2)
        in st3
      else st)"

text \<open>Line 33: the loop \<open>for tok in tokens\<close>.\<close>

fun scan_tokens :: "string \<Rightarrow> tokeninfo list \<Rightarrow> state \<Rightarrow> state" where
  "scan_tokens filename [] st = st"
| "scan_tokens filename (tok # tokens) st =
     scan_tokens filename tokens (scan_token filename tok st)"

text \<open>
  Lines 24 to 44: what the body of \<open>for name in files\<close> does with \<open>filename\<close>. \<open>open\<close>
  is outside the \<open>try\<close>, so what it raises leaves the script. Inside the \<open>try\<close> is the
  one statement of line 27; the clause of line 28 takes \<open>SyntaxError\<close> and
  \<open>UnicodeDecodeError\<close>, prints, counts and goes on to the next name, and any other
  exception leaves the script.
\<close>

definition scan_file :: "world \<Rightarrow> string \<Rightarrow> state \<Rightarrow> outcome" where
  "scan_file w filename st =
     (case fopen w filename of
        Inl ex \<Rightarrow> Uncaught ex st
      | Inr f \<Rightarrow>
          (case py_list (tokenize w filename f) of
             Inl (SyntaxError msg) \<Rightarrow>
               Finished ((print [''ERROR'', filename, msg] st)\<lparr>c_error := c_error st + 1\<rparr>)
           | Inl (UnicodeDecodeError msg) \<Rightarrow>
               Finished ((print [''ERROR'', filename, msg] st)\<lparr>c_error := c_error st + 1\<rparr>)
           | Inl (OtherException msg) \<Rightarrow> Uncaught (OtherException msg) st
           | Inr tokens \<Rightarrow> Finished (scan_tokens filename tokens st)))"

text \<open>Lines 20 to 23: the test of the name, and the path of the file.\<close>

definition scan_name :: "world \<Rightarrow> string \<Rightarrow> string \<Rightarrow> state \<Rightarrow> outcome" where
  "scan_name w root name st =
     (if \<not> endswith name ''.py'' then Finished st
      else scan_file w (path_join root name) st)"

text \<open>Line 19: the loop \<open>for name in files\<close>.\<close>

fun scan_names :: "world \<Rightarrow> string \<Rightarrow> string list \<Rightarrow> state \<Rightarrow> outcome" where
  "scan_names w root [] st = Finished st"
| "scan_names w root (name # files) st =
     (case scan_name w root name st of
        Finished st' \<Rightarrow> scan_names w root files st'
      | stopped \<Rightarrow> stopped)"

text \<open>Line 18: the loop over the triples that \<open>os.walk\<close> yields.\<close>

fun scan_walk :: "world \<Rightarrow> walked list \<Rightarrow> state \<Rightarrow> outcome" where
  "scan_walk w [] st = Finished st"
| "scan_walk w ((root, dirs, files) # rest) st =
     (case scan_names w root files st of
        Finished st' \<Rightarrow> scan_walk w rest st'
      | stopped \<Rightarrow> stopped)"

text \<open>Line 16.\<close>

definition init :: state where
  "init = \<lparr>stdout = [], c_error = 0, c_async = 0, c_await = 0\<rparr>"

text \<open>Lines 46 to 49.\<close>

definition summary :: "state \<Rightarrow> state" where
  "summary st =
     (let st1 = print [] st;
          st2 = print [''# of errors: '', str_nat (c_error st1)] st1;
          st3 = print [''# of `await`: '', str_nat (c_await st2)] st2;
          st4 = print [''# of `async`: '', str_nat (c_async st3)] st3
      in st4)"

text \<open>Lines 8 to 49: the script, run with the argument list \<open>argv\<close>.\<close>

definition main :: "world \<Rightarrow> string list \<Rightarrow> outcome" where
  "main w argv =
     (if length argv < 2 then
        SystemExit 1 (print [''pass directory to search in as an arg''] init)
      else
        let dir = abspath w (argv ! 1);
            st = print [] (print [''Directory: '', dir] init)
        in case scan_walk w (walk dir (scandir w dir)) st of
             Finished st' \<Rightarrow> Finished (summary st')
           | stopped \<Rightarrow> stopped)"

section \<open>What the claims speak of\<close>

text \<open>
  A Match is a line that line 37 prints, for a token that passes the test of line 34. A
  FailureRecord is the line that line 29 prints. The definitions below name these, and
  what one file adds to the output and to the counters, so that the theorems can say it.
\<close>

definition is_match :: "tokeninfo \<Rightarrow> bool" where
  "is_match tok = (tok_type tok = NAME \<and> (tok_string tok = ''await'' \<or> tok_string tok = ''async''))"

definition match_line :: "string \<Rightarrow> tokeninfo \<Rightarrow> string" where
  "match_line filename tok = format_match (tok_string tok) filename (tok_start tok)"

definition is_await :: "tokeninfo \<Rightarrow> bool" where
  "is_await tok = (tok_type tok = NAME \<and> tok_string tok = ''await'')"

definition is_async :: "tokeninfo \<Rightarrow> bool" where
  "is_async tok = (tok_type tok = NAME \<and> tok_string tok = ''async'')"

definition error_line :: "string \<Rightarrow> string \<Rightarrow> string" where
  "error_line filename msg = ''ERROR '' @ filename @ '' '' @ msg"

fun message :: "exn \<Rightarrow> string" where
  "message (SyntaxError msg) = msg"
| "message (UnicodeDecodeError msg) = msg"
| "message (OtherException msg) = msg"

fun caught :: "exn \<Rightarrow> bool" where
  "caught (SyntaxError msg) = True"
| "caught (UnicodeDecodeError msg) = True"
| "caught (OtherException msg) = False"

text \<open>
  For one file: \<open>leaves\<close> is the exception that ends the run at this file, if one does
  (from \<open>open\<close>, or from \<open>tokenize\<close> and not named in line 28); \<open>tokens_of\<close> is the
  token list, if the file opens and tokenizes; \<open>failure_of\<close> is the exception that
  line 28 takes, if there is one. \<open>report\<close> is what the file adds to the output, and
  \<open>errors_in\<close>, \<open>awaits_in\<close> and \<open>asyncs_in\<close> what it adds to the counters. \<open>advance\<close>
  adds up the files of a list, and \<open>py_files\<close> lists the paths of a walk whose name
  passes the test of line 20, in the order of the walk.
\<close>

definition leaves :: "world \<Rightarrow> string \<Rightarrow> exn option" where
  "leaves w filename =
     (case fopen w filename of
        Inl ex \<Rightarrow> Some ex
      | Inr f \<Rightarrow> (case snd (tokenize w filename f) of
                    None \<Rightarrow> None
                  | Some ex \<Rightarrow> if caught ex then None else Some ex))"

definition tokens_of :: "world \<Rightarrow> string \<Rightarrow> tokeninfo list option" where
  "tokens_of w filename =
     (case fopen w filename of
        Inl ex \<Rightarrow> None
      | Inr f \<Rightarrow> (case snd (tokenize w filename f) of
                    None \<Rightarrow> Some (fst (tokenize w filename f))
                  | Some ex \<Rightarrow> None))"

definition failure_of :: "world \<Rightarrow> string \<Rightarrow> exn option" where
  "failure_of w filename =
     (case fopen w filename of
        Inl ex \<Rightarrow> None
      | Inr f \<Rightarrow> (case snd (tokenize w filename f) of
                    None \<Rightarrow> None
                  | Some ex \<Rightarrow> if caught ex then Some ex else None))"

definition report :: "world \<Rightarrow> string \<Rightarrow> string list" where
  "report w filename =
     (case tokens_of w filename of
        Some tokens \<Rightarrow> map (match_line filename) (filter is_match tokens)
      | None \<Rightarrow> (case failure_of w filename of
                   Some ex \<Rightarrow> [error_line filename (message ex)]
                 | None \<Rightarrow> []))"

definition errors_in :: "world \<Rightarrow> string \<Rightarrow> nat" where
  "errors_in w filename = (case failure_of w filename of Some ex \<Rightarrow> 1 | None \<Rightarrow> 0)"

definition awaits_in :: "world \<Rightarrow> string \<Rightarrow> nat" where
  "awaits_in w filename =
     (case tokens_of w filename of Some tokens \<Rightarrow> length (filter is_await tokens) | None \<Rightarrow> 0)"

definition asyncs_in :: "world \<Rightarrow> string \<Rightarrow> nat" where
  "asyncs_in w filename =
     (case tokens_of w filename of Some tokens \<Rightarrow> length (filter is_async tokens) | None \<Rightarrow> 0)"

definition advance :: "world \<Rightarrow> string list \<Rightarrow> state \<Rightarrow> state" where
  "advance w paths st =
     \<lparr>stdout = stdout st @ concat (map (report w) paths),
      c_error = c_error st + sum_list (map (errors_in w) paths),
      c_async = c_async st + sum_list (map (asyncs_in w) paths),
      c_await = c_await st + sum_list (map (awaits_in w) paths)\<rparr>"

definition py_files :: "walked list \<Rightarrow> string list" where
  "py_files walked =
     concat (map (\<lambda>(root, dirs, files).
                    map (path_join root) (filter (\<lambda>name. endswith name ''.py'') files))
                 walked)"

text \<open>
  The two loops of lines 18 and 19 open the files of \<open>py_files\<close> one after the other;
  \<open>scan_files\<close> is that sequence of calls, without the triples.
\<close>

fun scan_files :: "world \<Rightarrow> string list \<Rightarrow> state \<Rightarrow> outcome" where
  "scan_files w [] st = Finished st"
| "scan_files w (filename # paths) st =
     (case scan_file w filename st of
        Finished st' \<Rightarrow> scan_files w paths st'
      | stopped \<Rightarrow> stopped)"

text \<open>The state when the loop of line 18 begins, after lines 13 and 14.\<close>

definition started :: "string \<Rightarrow> state" where
  "started dir = print [] (print [''Directory: '', dir] init)"

text \<open>
  Two notions for the claims about \<open>os.walk\<close>. \<open>forget\<close> empties every directory that
  cannot be listed, at any depth, and leaves the rest of the tree as it is. \<open>dir_paths\<close>
  gives the path of every real directory of a tree, each once, parents first; a symbolic
  link is not a real directory, whatever it points to. \<open>all_readable\<close> holds of a tree
  in which every directory can be listed.
\<close>

fun forget :: "entry \<Rightarrow> entry"
  and forget_all :: "(string \<times> entry) list \<Rightarrow> (string \<times> entry) list" where
  "forget File = File"
| "forget (Symlink to_dir) = Symlink to_dir"
| "forget (Dir readable entries) =
     (if readable then Dir True (forget_all entries) else Dir False [])"
| "forget_all [] = []"
| "forget_all ((name, e) # entries) = (name, forget e) # forget_all entries"

fun dir_paths :: "string \<Rightarrow> entry \<Rightarrow> string list"
  and dir_paths_in :: "string \<Rightarrow> (string \<times> entry) list \<Rightarrow> string list" where
  "dir_paths dirpath File = []"
| "dir_paths dirpath (Symlink to_dir) = []"
| "dir_paths dirpath (Dir readable entries) = dirpath # dir_paths_in dirpath entries"
| "dir_paths_in dirpath [] = []"
| "dir_paths_in dirpath ((name, e) # entries) =
     dir_paths (path_join dirpath name) e @ dir_paths_in dirpath entries"

fun all_readable :: "entry \<Rightarrow> bool"
  and all_readable_in :: "(string \<times> entry) list \<Rightarrow> bool" where
  "all_readable File = True"
| "all_readable (Symlink to_dir) = True"
| "all_readable (Dir readable entries) = (readable \<and> all_readable_in entries)"
| "all_readable_in [] = True"
| "all_readable_in ((name, e) # entries) = (all_readable e \<and> all_readable_in entries)"

text \<open>
  The files under a directory whose name ends with \<open>.py\<close>, by a recursion of its own on
  the tree: every entry that is not a directory, in every real directory below, whether
  or not that directory can be listed.
\<close>

fun py_under :: "string \<Rightarrow> entry \<Rightarrow> string list"
  and py_under_in :: "string \<Rightarrow> (string \<times> entry) list \<Rightarrow> string list" where
  "py_under dirpath File = []"
| "py_under dirpath (Symlink to_dir) = []"
| "py_under dirpath (Dir readable entries) = py_under_in dirpath entries"
| "py_under_in dirpath [] = []"
| "py_under_in dirpath ((name, e) # entries) =
     (case e of
        Dir readable below \<Rightarrow> py_under (path_join dirpath name) e
      | File \<Rightarrow> if endswith name ''.py'' then [path_join dirpath name] else []
      | Symlink to_dir \<Rightarrow>
          if \<not> to_dir \<and> endswith name ''.py'' then [path_join dirpath name] else [])
     @ py_under_in dirpath entries"

subsection \<open>Symbolic links with their targets\<close>

text \<open>
  In the tree above a symbolic link only tells whether it leads to a directory. Here it
  names its target, by the components of a path from the root of the file system, so
  that links can lead to one another and back to a directory above them.
\<close>

datatype node =
    RegularFile
  | Directory bool "(string \<times> node) list"
  | SymbolicLink "string list"

text \<open>
  The kernel's resolution of a path, from the node \<open>cur\<close>, the links on the way followed
  and the one at the end too. \<open>used\<close> counts the links followed; one more than
  \<open>symloop_max\<close> is the error \<open>ELOOP\<close> (Linux follows 40). \<open>None\<close> is an \<open>OSError\<close>: no
  such entry, not a directory, or too many links.
\<close>

function resolve :: "node \<Rightarrow> nat \<Rightarrow> node \<Rightarrow> string list \<Rightarrow> nat \<Rightarrow> (node \<times> nat) option" where
  "resolve fs symloop_max cur [] used = Some (cur, used)"
| "resolve fs symloop_max cur (c # cs) used =
     (case cur of
        Directory readable entries \<Rightarrow>
          (case map_of entries c of
             None \<Rightarrow> None
           | Some (SymbolicLink target) \<Rightarrow>
               if used < symloop_max
               then resolve fs symloop_max fs (target @ cs) (Suc used)
               else None
           | Some RegularFile \<Rightarrow> resolve fs symloop_max RegularFile cs used
           | Some (Directory r es) \<Rightarrow> resolve fs symloop_max (Directory r es) cs used)
      | RegularFile \<Rightarrow> None
      | SymbolicLink target \<Rightarrow> None)"
  by pat_completeness auto
termination
  by (relation "inv_image (less_than <*lex*> less_than)
                  (\<lambda>(fs, symloop_max, cur, cs, used). (symloop_max - used, length cs))")
     auto

text \<open>
  \<open>entry.is_dir()\<close> follows links and takes an error for \<open>False\<close>; \<open>islink\<close> does not follow.
  \<open>used\<close> is the number of links that the path of the directory being listed has used.
\<close>

fun node_is_dir :: "node \<Rightarrow> nat \<Rightarrow> nat \<Rightarrow> node \<Rightarrow> bool" where
  "node_is_dir fs symloop_max used RegularFile = False"
| "node_is_dir fs symloop_max used (Directory readable entries) = True"
| "node_is_dir fs symloop_max used (SymbolicLink target) =
     (used < symloop_max \<and>
      (case resolve fs symloop_max fs target (Suc used) of
         Some (Directory readable entries, used') \<Rightarrow> True
       | _ \<Rightarrow> False))"

fun node_islink :: "node \<Rightarrow> bool" where
  "node_islink (SymbolicLink target) = True"
| "node_islink n = False"

definition node_dirnames :: "node \<Rightarrow> nat \<Rightarrow> nat \<Rightarrow> (string \<times> node) list \<Rightarrow> string list" where
  "node_dirnames fs symloop_max used entries =
     map fst (filter (\<lambda>(name, e). node_is_dir fs symloop_max used e) entries)"

definition node_filenames :: "node \<Rightarrow> nat \<Rightarrow> nat \<Rightarrow> (string \<times> node) list \<Rightarrow> string list" where
  "node_filenames fs symloop_max used entries =
     map fst (filter (\<lambda>(name, e). \<not> node_is_dir fs symloop_max used e) entries)"

text \<open>
  \<open>os.walk\<close> of \<open>Lib/os.py\<close> on such a file system, with \<open>topdown=True\<close>, \<open>onerror=None\<close>
  and either value of \<open>followlinks\<close>: \<open>if followlinks or not islink(new_path)\<close> decides
  whether a directory is walked into. \<open>cur\<close> is the node that \<open>dirpath\<close> leads to. \<open>depth\<close>
  bounds the nesting of the recursive calls, and \<open>None\<close> says that the walk has not
  returned within it: whether it returns is then a theorem, not a matter of definition.
\<close>

fun os_walk :: "nat \<Rightarrow> bool \<Rightarrow> node \<Rightarrow> nat \<Rightarrow> string \<Rightarrow> node \<Rightarrow> nat \<Rightarrow> walked list option"
  and os_walk_into ::
    "nat \<Rightarrow> bool \<Rightarrow> node \<Rightarrow> nat \<Rightarrow> string \<Rightarrow> nat \<Rightarrow> (string \<times> node) list \<Rightarrow> walked list option" where
  "os_walk 0 followlinks fs symloop_max dirpath cur used = None"
| "os_walk (Suc depth) followlinks fs symloop_max dirpath cur used =
     (case cur of
        Directory readable entries \<Rightarrow>
          if readable then
            (case os_walk_into depth followlinks fs symloop_max dirpath used entries of
               None \<Rightarrow> None
             | Some below \<Rightarrow>
                 Some ((dirpath, node_dirnames fs symloop_max used entries,
                        node_filenames fs symloop_max used entries) # below))
          else Some []
      | RegularFile \<Rightarrow> Some []
      | SymbolicLink target \<Rightarrow> Some [])"
| "os_walk_into depth followlinks fs symloop_max dirpath used [] = Some []"
| "os_walk_into depth followlinks fs symloop_max dirpath used ((name, e) # entries) =
     (case (if node_is_dir fs symloop_max used e \<and> (followlinks \<or> \<not> node_islink e) then
              (case e of
                 SymbolicLink target \<Rightarrow>
                   (case resolve fs symloop_max fs target (Suc used) of
                      Some (d, used') \<Rightarrow>
                        os_walk depth followlinks fs symloop_max (path_join dirpath name) d used'
                    | None \<Rightarrow> Some [])
               | d \<Rightarrow> os_walk depth followlinks fs symloop_max (path_join dirpath name) d used)
            else Some []) of
        None \<Rightarrow> None
      | Some first \<Rightarrow>
          (case os_walk_into depth followlinks fs symloop_max dirpath used entries of
             None \<Rightarrow> None
           | Some others \<Rightarrow> Some (first @ others)))"
text \<open>
  What \<open>os.walk\<close> sees of a node when it does not follow links is an \<open>entry\<close>: a link
  reduced to whether it leads to a directory. \<open>height\<close> is the nesting of the real
  directories below a node, links not followed.
\<close>

fun as_entry :: "node \<Rightarrow> nat \<Rightarrow> nat \<Rightarrow> node \<Rightarrow> entry"
  and as_entries :: "node \<Rightarrow> nat \<Rightarrow> nat \<Rightarrow> (string \<times> node) list \<Rightarrow> (string \<times> entry) list" where
  "as_entry fs symloop_max used RegularFile = File"
| "as_entry fs symloop_max used (SymbolicLink target) =
     Symlink (node_is_dir fs symloop_max used (SymbolicLink target))"
| "as_entry fs symloop_max used (Directory readable entries) =
     Dir readable (as_entries fs symloop_max used entries)"
| "as_entries fs symloop_max used [] = []"
| "as_entries fs symloop_max used ((name, e) # entries) =
     (name, as_entry fs symloop_max used e) # as_entries fs symloop_max used entries"

fun height :: "node \<Rightarrow> nat"
  and height_in :: "(string \<times> node) list \<Rightarrow> nat" where
  "height RegularFile = 0"
| "height (SymbolicLink target) = 0"
| "height (Directory readable entries) = Suc (height_in entries)"
| "height_in [] = 0"
| "height_in ((name, e) # entries) = max (height e) (height_in entries)"


section \<open>An example world\<close>

text \<open>
  A world to run the script in. The token lists and the messages are those of
  CPython 3.11 on the bytes given (there \<open>ENCODING\<close> is 63, \<open>OP\<close> 54, \<open>STRING\<close> 3,
  \<open>NUMBER\<close> 2, \<open>NEWLINE\<close> 4 and \<open>ENDMARKER\<close> 0). \<open>a.py\<close> tokenizes; \<open>b.py\<close> starts with
  a byte that is not UTF-8, which is a \<open>SyntaxError\<close> before any token, with the name of
  the file in its message; \<open>c.py\<close> has such
  a byte on its second line, which is a \<open>UnicodeDecodeError\<close> after the tokens of the
  first line; \<open>e.py\<close> ends inside a bracket, which is a \<open>tokenize.TokenError\<close>. The
  directory \<open>locked\<close> cannot be listed, and \<open>loop\<close> is a symbolic link to a directory.
\<close>

definition a_py :: string where
  "a_py = ''async = '' @ [CHR 0x22] @ ''await'' @ [CHR 0x22] @ '' + await(awaits)''"

definition a_tokens :: "tokeninfo list" where
  "a_tokens =
     [TokenInfo 63 ''utf-8'' (0, 0) (0, 0) [],
      TokenInfo 1 ''async'' (1, 0) (1, 5) a_py,
      TokenInfo 54 ''='' (1, 6) (1, 7) a_py,
      TokenInfo 3 ([CHR 0x22] @ ''await'' @ [CHR 0x22]) (1, 8) (1, 15) a_py,
      TokenInfo 54 ''+'' (1, 16) (1, 17) a_py,
      TokenInfo 1 ''await'' (1, 18) (1, 23) a_py,
      TokenInfo 54 ''('' (1, 23) (1, 24) a_py,
      TokenInfo 1 ''awaits'' (1, 24) (1, 30) a_py,
      TokenInfo 54 '')'' (1, 30) (1, 31) a_py,
      TokenInfo 4 [] (1, 31) (1, 32) [],
      TokenInfo 0 [] (2, 0) (2, 0) []]"

definition b_py :: string where
  "b_py = [CHR 0xFF]"

definition c_py :: string where
  "c_py = ''async = 1'' @ [CHR 0x0A] @ ''x = '' @ [CHR 0xFF, CHR 0x0A]"

definition c_tokens :: "tokeninfo list" where
  "c_tokens =
     [TokenInfo 63 ''utf-8'' (0, 0) (0, 0) [],
      TokenInfo 1 ''async'' (1, 0) (1, 5) (''async = 1'' @ [CHR 0x0A]),
      TokenInfo 54 ''='' (1, 6) (1, 7) (''async = 1'' @ [CHR 0x0A]),
      TokenInfo 2 ''1'' (1, 8) (1, 9) (''async = 1'' @ [CHR 0x0A]),
      TokenInfo 4 [CHR 0x0A] (1, 9) (1, 10) (''async = 1'' @ [CHR 0x0A])]"

definition c_msg :: string where
  "c_msg = [CHR 0x27] @ ''utf-8'' @ [CHR 0x27] @ '' codec can'' @ [CHR 0x27]
             @ ''t decode byte 0xff in position 4: invalid start byte''"

definition e_py :: string where
  "e_py = ''await(''"

definition e_tokens :: "tokeninfo list" where
  "e_tokens =
     [TokenInfo 63 ''utf-8'' (0, 0) (0, 0) [],
      TokenInfo 1 ''await'' (1, 0) (1, 5) e_py,
      TokenInfo 54 ''('' (1, 5) (1, 6) e_py]"

definition e_msg :: string where
  "e_msg = ''('' @ [CHR 0x27] @ ''EOF in multi-line statement'' @ [CHR 0x27] @ '', (2, 0))''"

definition encoding_msg :: "string \<Rightarrow> string" where
  "encoding_msg filename =
     ''invalid or missing encoding declaration for '' @ [CHR 0x27] @ filename @ [CHR 0x27]"

definition example_tokenize :: "string \<Rightarrow> string \<Rightarrow> tokeninfo generator" where
  "example_tokenize filename f =
     (if f = a_py then (a_tokens, None)
      else if f = b_py then ([], Some (SyntaxError (encoding_msg filename)))
      else if f = c_py then (c_tokens, Some (UnicodeDecodeError c_msg))
      else if f = e_py then (e_tokens, Some (OtherException e_msg))
      else ([TokenInfo 63 ''utf-8'' (0, 0) (0, 0) [], TokenInfo 0 [] (1, 0) (1, 0) []], None))"

definition example_fopen :: "string \<Rightarrow> exn + string" where
  "example_fopen p =
     (if p = ''/r/a.py'' then Inr a_py
      else if p = ''/r/b.py'' then Inr b_py
      else if p = ''/r/d.txt'' then Inr ''await''
      else if p = ''/r/pkg/c.py'' then Inr c_py
      else if p = ''/r/pkg/empty.py'' then Inr []
      else if p = ''/r/locked/x.py'' then Inr a_py
      else if p = ''/q/e.py'' then Inr e_py
      else if p = ''/q/f.py'' then Inr a_py
      else Inl (OtherException ''[Errno 2] No such file or directory''))"

definition example_tree :: entry where
  "example_tree =
     Dir True
       [(''a.py'', File), (''b.py'', File), (''d.txt'', File), (''E.PY'', File),
        (''pkg'', Dir True [(''c.py'', File), (''empty.py'', File)]),
        (''locked'', Dir False [(''x.py'', File)]),
        (''loop'', Symlink True)]"

definition example_scandir :: "string \<Rightarrow> entry" where
  "example_scandir p =
     (if p = ''/r'' then example_tree
      else if p = ''/q'' then Dir True [(''e.py'', File), (''f.py'', File)]
      else if p = ''/empty'' then Dir True []
      else File)"

definition example :: world where
  "example =
     \<lparr>abspath = (\<lambda>p. if startswith p ''/'' then p else path_join ''/home'' p),
      scandir = example_scandir, fopen = example_fopen, tokenize = example_tokenize\<rparr>"

text \<open>The state at the end of the run on \<open>/r\<close>, and the tokens of an empty file.\<close>

definition example_final :: state where
  "example_final =
     \<lparr>stdout = [''Directory:  /r'', [],
                ''async'' @ [CHR 0x09] @ ''/r/a.py: (1, 0)'',
                ''await'' @ [CHR 0x09] @ ''/r/a.py: (1, 18)'',
                ''ERROR /r/b.py '' @ encoding_msg ''/r/b.py'',
                ''ERROR /r/pkg/c.py '' @ c_msg,
                [], ''# of errors:  2'', ''# of `await`:  1'', ''# of `async`:  1''],
      c_error = 2, c_async = 1, c_await = 1\<rparr>"

definition empty_tokens :: "tokeninfo list" where
  "empty_tokens = [TokenInfo 63 ''utf-8'' (0, 0) (0, 0) [], TokenInfo 0 [] (1, 0) (1, 0) []]"

text \<open>
  The same world with two files that cannot be opened, neither of them named \<open>*.py\<close>;
  and the directory \<open>/r\<close> listed in another order, with the state at the end of that run.
\<close>

definition example_denied :: world where
  "example_denied =
     example\<lparr>fopen := (\<lambda>p. if p = ''/r/d.txt'' \<or> p = ''/r/E.PY''
                          then Inl (OtherException ''[Errno 13] Permission denied'')
                          else fopen example p)\<rparr>"

definition example_reordered :: "string \<Rightarrow> entry" where
  "example_reordered p =
     (if p = ''/r'' then
        Dir True
          [(''loop'', Symlink True),
           (''pkg'', Dir True [(''empty.py'', File), (''c.py'', File)]),
           (''E.PY'', File), (''b.py'', File), (''a.py'', File),
           (''locked'', Dir False [(''x.py'', File)]), (''d.txt'', File)]
      else scandir example p)"

definition example_final_reordered :: state where
  "example_final_reordered =
     \<lparr>stdout = [''Directory:  /r'', [],
                ''ERROR /r/b.py '' @ encoding_msg ''/r/b.py'',
                ''async'' @ [CHR 0x09] @ ''/r/a.py: (1, 0)'',
                ''await'' @ [CHR 0x09] @ ''/r/a.py: (1, 18)'',
                ''ERROR /r/pkg/c.py '' @ c_msg,
                [], ''# of errors:  2'', ''# of `await`:  1'', ''# of `async`:  1''],
      c_error = 2, c_async = 1, c_await = 1\<rparr>"

text \<open>
  A file system with cycles of links: \<open>/r/loop\<close> leads to \<open>/r\<close>, \<open>/r/sub/up\<close> to \<open>/r/sub\<close>
  and \<open>/r/self\<close> to itself. \<open>loop_r\<close> is the directory \<open>/r\<close> of it.
\<close>

definition loop_fs :: node where
  "loop_fs =
     Directory True
       [(''r'', Directory True
           [(''a.py'', RegularFile),
            (''loop'', SymbolicLink [''r'']),
            (''sub'', Directory True [(''up'', SymbolicLink [''r'', ''sub''])]),
            (''self'', SymbolicLink [''r'', ''self''])])]"

definition loop_r :: node where
  "loop_r =
     Directory True
       [(''a.py'', RegularFile),
        (''loop'', SymbolicLink [''r'']),
        (''sub'', Directory True [(''up'', SymbolicLink [''r'', ''sub''])]),
        (''self'', SymbolicLink [''r'', ''self''])]"


section \<open>Numerals\<close>

lemma digit_value_digit: "d < 10 \<Longrightarrow> digit_value (digit d) = d"
proof -
  assume "d < 10"
  then have "d \<in> {0, 1, 2, 3, 4, 5, 6, 7, 8, 9}"
    by auto
  then show ?thesis
    by (auto simp: digit_def digit_value_def)
qed

lemma of_decimal_snoc: "of_decimal (s @ [c]) = 10 * of_decimal s + digit_value c"
  by (simp add: of_decimal_def)

lemma of_decimal_str_nat: "of_decimal (str_nat n) = n"
proof (induction n rule: str_nat.induct)
  case (1 n)
  show ?case
  proof (cases "n < 10")
    case True
    then show ?thesis
      by (simp add: str_nat.simps [of n] of_decimal_def digit_value_digit)
  next
    case False
    with 1 have "of_decimal (str_nat (n div 10)) = n div 10"
      by simp
    with False show ?thesis
      by (simp add: str_nat.simps [of n] of_decimal_snoc digit_value_digit)
  qed
qed

section \<open>One file\<close>

lemma scan_tokens_stdout:
  "stdout (scan_tokens filename tokens st) =
     stdout st @ map (match_line filename) (filter is_match tokens)"
  by (induction tokens arbitrary: st)
     (auto simp: scan_token_def print_def is_match_def match_line_def Let_def)

lemma scan_tokens_c_await:
  "c_await (scan_tokens filename tokens st) = c_await st + length (filter is_await tokens)"
  by (induction tokens arbitrary: st)
     (auto simp: scan_token_def print_def is_await_def Let_def)

lemma scan_tokens_c_async:
  "c_async (scan_tokens filename tokens st) = c_async st + length (filter is_async tokens)"
  by (induction tokens arbitrary: st)
     (auto simp: scan_token_def print_def is_async_def Let_def)

lemma scan_tokens_c_error:
  "c_error (scan_tokens filename tokens st) = c_error st"
  by (induction tokens arbitrary: st)
     (auto simp: scan_token_def print_def Let_def)

lemma advance_Nil: "advance w [] st = st"
  by (simp add: advance_def)

lemma advance_Cons: "advance w (x # xs) st = advance w xs (advance w [x] st)"
  by (simp add: advance_def)

lemma scan_file_Finished:
  assumes "leaves w filename = None"
  shows "scan_file w filename st = Finished (advance w [filename] st)"
proof (cases "fopen w filename")
  case (Inl ex)
  with assms show ?thesis by (simp add: leaves_def)
next
  case (Inr f)
  show ?thesis
  proof (cases "snd (tokenize w filename f)")
    case None
    have "scan_tokens filename (fst (tokenize w filename f)) st = advance w [filename] st"
      by (rule state.equality)
         (simp_all add: scan_tokens_stdout scan_tokens_c_await scan_tokens_c_async
            scan_tokens_c_error advance_def report_def tokens_of_def failure_of_def
            errors_in_def awaits_in_def asyncs_in_def Inr None)
    then show ?thesis
      by (simp add: scan_file_def py_list_def Inr None)
  next
    case (Some ex)
    with assms Inr have c: "caught ex"
      by (auto simp: leaves_def split: if_splits)
    have "(print [''ERROR'', filename, message ex] st)\<lparr>c_error := c_error st + 1\<rparr>
            = advance w [filename] st"
      using c
      by (intro state.equality)
         (simp_all add: print_def error_line_def advance_def report_def tokens_of_def
            failure_of_def errors_in_def awaits_in_def asyncs_in_def Inr Some)
    with c show ?thesis
      by (cases ex) (simp_all add: scan_file_def py_list_def Inr Some)
  qed
qed

lemma scan_file_Uncaught:
  assumes "leaves w filename = Some ex"
  shows "scan_file w filename st = Uncaught ex st"
proof (cases "fopen w filename")
  case (Inl ex')
  with assms show ?thesis by (simp add: leaves_def scan_file_def)
next
  case (Inr f)
  with assms obtain ex' where s: "snd (tokenize w filename f) = Some ex'" and c: "\<not> caught ex'" and e: "ex' = ex"
    by (auto simp: leaves_def split: option.splits if_splits)
  then show ?thesis
    by (cases ex) (auto simp: scan_file_def py_list_def Inr)
qed



lemma advance_failure:
  assumes "fopen w filename = Inr f" and "snd (tokenize w filename f) = Some ex" and "caught ex"
  shows "advance w [filename] st =
           st\<lparr>stdout := stdout st @ [''ERROR '' @ filename @ '' '' @ message ex],
              c_error := c_error st + 1\<rparr>"
  using assms
  by (intro state.equality)
     (simp_all add: advance_def report_def tokens_of_def failure_of_def errors_in_def
        awaits_in_def asyncs_in_def error_line_def)

lemma advance_tokens:
  assumes "fopen w filename = Inr f" and "snd (tokenize w filename f) = None"
  shows "advance w [filename] st =
           st\<lparr>stdout := stdout st @ map (match_line filename) (filter is_match (fst (tokenize w filename f))),
              c_async := c_async st + length (filter is_async (fst (tokenize w filename f))),
              c_await := c_await st + length (filter is_await (fst (tokenize w filename f)))\<rparr>"
  using assms
  by (intro state.equality)
     (simp_all add: advance_def report_def tokens_of_def failure_of_def errors_in_def
        awaits_in_def asyncs_in_def)

section \<open>All the files of a walk\<close>

lemma scan_files_append:
  "scan_files w (xs @ ys) st =
     (case scan_files w xs st of Finished st' \<Rightarrow> scan_files w ys st' | stopped \<Rightarrow> stopped)"
  by (induction xs arbitrary: st) (auto split: outcome.splits)

lemma scan_names_files:
  "scan_names w root files st =
     scan_files w (map (path_join root) (filter (\<lambda>name. endswith name ''.py'') files)) st"
  by (induction files arbitrary: st) (auto simp: scan_name_def split: outcome.splits)

lemma py_files_Nil: "py_files [] = []"
  by (simp add: py_files_def)

lemma py_files_Cons:
  "py_files ((root, dirs, files) # rest) =
     map (path_join root) (filter (\<lambda>name. endswith name ''.py'') files) @ py_files rest"
  by (simp add: py_files_def)

lemma scan_walk_files: "scan_walk w walked st = scan_files w (py_files walked) st"
proof (induction walked arbitrary: st)
  case Nil
  show ?case by (simp add: py_files_Nil)
next
  case (Cons t rest)
  obtain root dirs files where t: "t = (root, dirs, files)"
    by (cases t)
  show ?case
    by (simp add: t py_files_Cons scan_files_append scan_names_files Cons.IH
          split: outcome.splits)
qed

lemma scan_files_all:
  "\<forall>p \<in> set paths. leaves w p = None \<Longrightarrow> scan_files w paths st = Finished (advance w paths st)"
proof (induction paths arbitrary: st)
  case Nil
  show ?case by (simp add: advance_Nil)
next
  case (Cons p paths)
  then show ?case
    by (simp add: scan_file_Finished advance_Cons [of w p paths])
qed

lemma scan_files_Finished_D:
  "scan_files w paths st = Finished st' \<Longrightarrow>
     (\<forall>p \<in> set paths. leaves w p = None) \<and> st' = advance w paths st"
proof (induction paths arbitrary: st)
  case Nil
  then show ?case by (simp add: advance_Nil)
next
  case (Cons p paths)
  show ?case
  proof (cases "leaves w p")
    case None
    with Cons.prems have "scan_files w paths (advance w [p] st) = Finished st'"
      by (simp add: scan_file_Finished)
    from Cons.IH [OF this] None show ?thesis
      by (simp add: advance_Cons [of w p paths])
  next
    case (Some ex)
    with Cons.prems show ?thesis
      by (simp add: scan_file_Uncaught)
  qed
qed

lemma endswith_iff: "endswith s p \<longleftrightarrow> (\<exists>stem. s = stem @ p)"
proof
  assume "endswith s p"
  then have "s = take (length s - length p) s @ p"
    by (simp add: endswith_def) (metis append_take_drop_id)
  then show "\<exists>stem. s = stem @ p" ..
next
  assume "\<exists>stem. s = stem @ p"
  then show "endswith s p"
    by (auto simp: endswith_def)
qed

lemma set_py_files:
  "p \<in> set (py_files walked) \<longleftrightarrow>
     (\<exists>root dirs files name. (root, dirs, files) \<in> set walked \<and> name \<in> set files \<and>
        endswith name ''.py'' \<and> p = path_join root name)"
proof (induction walked)
  case Nil
  show ?case by (simp add: py_files_Nil)
next
  case (Cons t walked)
  obtain root dirs files where t: "t = (root, dirs, files)"
    by (cases t)
  show ?case
    unfolding t py_files_Cons set_append Un_iff Cons.IH
    by (auto, blast)
qed

lemma scan_file_cong:
  "fopen w' p = fopen w p \<Longrightarrow> tokenize w' = tokenize w \<Longrightarrow> scan_file w' p st = scan_file w p st"
  by (simp add: scan_file_def split: sum.splits)

lemma scan_files_cong:
  "\<forall>p \<in> set ps. fopen w' p = fopen w p \<Longrightarrow> tokenize w' = tokenize w \<Longrightarrow>
     scan_files w' ps st = scan_files w ps st"
proof (induction ps arbitrary: st)
  case Nil
  show ?case by simp
next
  case (Cons p ps)
  from Cons.prems have "scan_file w' p st = scan_file w p st"
    by (intro scan_file_cong) simp_all
  moreover from Cons.prems have "scan_files w' ps st' = scan_files w ps st'" for st'
    by (intro Cons.IH) simp_all
  ultimately show ?case
    by (simp split: outcome.splits)
qed

section \<open>The whole run\<close>

lemma started_eq:
  "started dir = \<lparr>stdout = [''Directory:  '' @ dir, ''''], c_error = 0, c_async = 0, c_await = 0\<rparr>"
  by (simp add: started_def print_def init_def)

lemma summary_eq:
  "summary st =
     st\<lparr>stdout := stdout st @
          ['''', ''# of errors:  '' @ str_nat (c_error st),
           ''# of `await`:  '' @ str_nat (c_await st),
           ''# of `async`:  '' @ str_nat (c_async st)]\<rparr>"
  by (simp add: summary_def print_def Let_def)

lemma main_exit:
  "length argv < 2 \<Longrightarrow>
     main w argv = SystemExit 1 (print [''pass directory to search in as an arg''] init)"
  by (simp add: main_def)

lemma main_files:
  "2 \<le> length argv \<Longrightarrow>
     main w argv =
       (case scan_files w (py_files (walk (abspath w (argv ! 1))
                                         (scandir w (abspath w (argv ! 1)))))
               (started (abspath w (argv ! 1))) of
          Finished st' \<Rightarrow> Finished (summary st')
        | stopped \<Rightarrow> stopped)"
  by (simp add: main_def Let_def started_def scan_walk_files)

lemma main_Finished_D:
  assumes "main w argv = Finished st'"
  shows "2 \<le> length argv"
    and "\<forall>p \<in> set (py_files (walk (abspath w (argv ! 1)) (scandir w (abspath w (argv ! 1))))).
           leaves w p = None"
    and "st' = summary (advance w (py_files (walk (abspath w (argv ! 1))
                                               (scandir w (abspath w (argv ! 1)))))
                          (started (abspath w (argv ! 1))))"
proof -
  show len: "2 \<le> length argv"
  proof (rule ccontr)
    assume "\<not> 2 \<le> length argv"
    then have "length argv < 2" by simp
    from main_exit [OF this, of w] assms show False by simp
  qed
  let ?ps = "py_files (walk (abspath w (argv ! 1)) (scandir w (abspath w (argv ! 1))))"
  from assms main_files [OF len, of w]
  obtain st'' where s: "scan_files w ?ps (started (abspath w (argv ! 1))) = Finished st''"
    and e: "st' = summary st''"
    by (auto split: outcome.splits)
  from scan_files_Finished_D [OF s] e
  show "\<forall>p \<in> set ?ps. leaves w p = None"
    and "st' = summary (advance w ?ps (started (abspath w (argv ! 1))))"
    by simp_all
qed

lemma main_FinishedI:
  assumes "2 \<le> length argv"
    and "\<forall>p \<in> set (py_files (walk (abspath w (argv ! 1)) (scandir w (abspath w (argv ! 1))))).
           leaves w p = None"
  shows "main w argv =
           Finished (summary (advance w (py_files (walk (abspath w (argv ! 1))
                                                      (scandir w (abspath w (argv ! 1)))))
                                (started (abspath w (argv ! 1)))))"
  unfolding main_files [OF assms(1)] scan_files_all [OF assms(2)]
  by simp

lemma errors_in_tokenized:
  "leaves w p = None \<Longrightarrow> errors_in w p = (if tokens_of w p = None then 1 else 0)"
  by (auto simp: leaves_def errors_in_def tokens_of_def failure_of_def
        split: sum.splits option.splits if_splits)

lemma errors_plus_tokenized:
  "\<forall>p \<in> set ps. leaves w p = None \<Longrightarrow>
     sum_list (map (errors_in w) ps) + length (filter (\<lambda>p. tokens_of w p \<noteq> None) ps) = length ps"
  by (induction ps) (simp_all add: errors_in_tokenized)

lemma c_error_summary: "c_error (summary st) = c_error st"
  by (simp add: summary_eq)

lemma c_error_advance: "c_error (advance w ps st) = c_error st + sum_list (map (errors_in w) ps)"
  by (simp add: advance_def)

lemma stdout_advance: "stdout (advance w ps st) = stdout st @ concat (map (report w) ps)"
  by (simp add: advance_def)

lemma report_tokens:
  "fopen w p = Inr f \<Longrightarrow> tokenize w p f = (tokens, None) \<Longrightarrow>
     report w p = map (match_line p) (filter is_match tokens)"
  by (simp add: report_def tokens_of_def)

lemma report_failure:
  "fopen w p = Inr f \<Longrightarrow> tokenize w p f = (tokens, Some ex) \<Longrightarrow> caught ex \<Longrightarrow>
     report w p = [error_line p (message ex)]"
  by (simp add: report_def tokens_of_def failure_of_def)

lemma str_nat_0: "str_nat 0 = ''0''"
  by (simp add: str_nat.simps digit_def)

lemma walk_empty: "walk dirpath (Dir True []) = [(dirpath, [], [])]"
  by (simp add: dirnames_def filenames_def)

lemma main_empty:
  assumes "2 \<le> length argv" and "scandir w (abspath w (argv ! 1)) = Dir True []"
  shows "main w argv =
           Finished \<lparr>stdout = [''Directory:  '' @ abspath w (argv ! 1), [], [],
                               ''# of errors:  0'', ''# of `await`:  0'', ''# of `async`:  0''],
                      c_error = 0, c_async = 0, c_await = 0\<rparr>"
proof -
  have "py_files (walk (abspath w (argv ! 1)) (scandir w (abspath w (argv ! 1)))) = []"
    unfolding assms(2) walk_empty by (simp add: py_files_def)
  then have "main w argv = Finished (summary (started (abspath w (argv ! 1))))"
    unfolding main_files [OF assms(1)] by (simp add: advance_Nil)
  then show ?thesis
    by (simp add: summary_eq started_eq str_nat_0)
qed

section \<open>The order of the walk\<close>

lemma sum_list_mset_cong:
  fixes f :: "'a \<Rightarrow> 'b::comm_monoid_add"
  shows "mset xs = mset ys \<Longrightarrow> sum_list (map f xs) = sum_list (map f ys)"
  by (metis mset_map sum_mset_sum_list)

lemma mset_concat_cong:
  assumes "mset xs = mset ys"
  shows "mset (concat (map g xs)) = mset (concat (map g ys))"
proof -
  have "mset (concat (map g zs)) = sum_list (map (\<lambda>z. mset (g z)) zs)" for zs
    by (induction zs) simp_all
  with sum_list_mset_cong [OF assms, of "\<lambda>z. mset (g z)"] show ?thesis
    by simp
qed

lemma leaves_scandir: "leaves (w\<lparr>scandir := sc\<rparr>) = leaves w"
  by (simp add: fun_eq_iff leaves_def split: sum.splits option.splits)

lemma tokens_of_scandir: "tokens_of (w\<lparr>scandir := sc\<rparr>) = tokens_of w"
  by (simp add: fun_eq_iff tokens_of_def split: sum.splits option.splits)

lemma failure_of_scandir: "failure_of (w\<lparr>scandir := sc\<rparr>) = failure_of w"
  by (simp add: fun_eq_iff failure_of_def split: sum.splits option.splits)

lemma advance_scandir: "advance (w\<lparr>scandir := sc\<rparr>) = advance w"
  unfolding advance_def [abs_def] report_def [abs_def] errors_in_def [abs_def]
    awaits_in_def [abs_def] asyncs_in_def [abs_def] tokens_of_scandir failure_of_scandir ..

lemma c_await_advance: "c_await (advance w ps st) = c_await st + sum_list (map (awaits_in w) ps)"
  by (simp add: advance_def)

lemma c_async_advance: "c_async (advance w ps st) = c_async st + sum_list (map (asyncs_in w) ps)"
  by (simp add: advance_def)

section \<open>The walk\<close>

lemma is_dir_forget: "is_dir (forget e) = is_dir e"
  by (cases e) simp_all

lemma islink_forget: "islink (forget e) = islink e"
  by (cases e) simp_all

lemma dirnames_forget_all: "dirnames (forget_all entries) = dirnames entries"
  by (induction entries) (auto simp: dirnames_def is_dir_forget)

lemma filenames_forget_all: "filenames (forget_all entries) = filenames entries"
  by (induction entries) (auto simp: filenames_def is_dir_forget)

lemma walk_forget:
  "walk dirpath (forget e) = walk dirpath e"
  "walk_into dirpath (forget_all entries) = walk_into dirpath entries"
  by (induction dirpath e and dirpath entries rule: walk_walk_into.induct)
     (simp_all add: dirnames_forget_all filenames_forget_all is_dir_forget islink_forget)

lemma walk_subseq:
  "subseq (map fst (walk dirpath e)) (dir_paths dirpath e)"
  "subseq (map fst (walk_into dirpath entries)) (dir_paths_in dirpath entries)"
proof (induction dirpath e and dirpath entries rule: walk_walk_into.induct)
  case (5 dirpath name e entries)
  show ?case
  proof (cases "is_dir e \<and> \<not> islink e")
    case True
    with 5 show ?thesis
      by (simp add: list_emb_append_mono)
  next
    case False
    then have "walk_into dirpath ((name, e) # entries) = walk_into dirpath entries"
      by auto
    with 5(2) show ?thesis
      by (simp add: list_emb_append2 del: walk.simps walk_into.simps)
  qed
qed simp_all

lemma scan_walk_scandir: "scan_walk (w\<lparr>scandir := sc\<rparr>) walked st = scan_walk w walked st"
proof -
  have "scan_files (w\<lparr>scandir := sc\<rparr>) (py_files walked) st = scan_files w (py_files walked) st"
    by (intro scan_files_cong) simp_all
  then show ?thesis
    by (simp only: scan_walk_files)
qed

lemma walk_all_readable:
  "all_readable e \<Longrightarrow> map fst (walk dirpath e) = dir_paths dirpath e"
  "all_readable_in entries \<Longrightarrow>
     map fst (walk_into dirpath entries) = dir_paths_in dirpath entries"
proof (induction dirpath e and dirpath entries rule: walk_walk_into.induct)
  case (5 dirpath name e entries)
  then show ?case
    by (cases e) simp_all
qed simp_all

section \<open>What line 28 recovers from\<close>

text \<open>
  A file that opens and whose tokenization ends, or raises one of the two exceptions that
  line 28 names, gives its Matches or exactly one \<open>ERROR\<close> line, and the run goes on with
  the next file. An exception of another class ends the run at that file.
\<close>

lemma scan_file_matches_or_failure:
  assumes "fopen w filename = Inr f"
      and "\<And>msg. snd (tokenize w filename f) \<noteq> Some (OtherException msg)"
  shows "scan_file w filename st = Finished
           (case snd (tokenize w filename f) of
              None \<Rightarrow>
                \<lparr>stdout = stdout st @
                     map (match_line filename) (filter is_match (fst (tokenize w filename f))),
                 c_error = c_error st,
                 c_async = c_async st + length (filter is_async (fst (tokenize w filename f))),
                 c_await = c_await st + length (filter is_await (fst (tokenize w filename f)))\<rparr>
            | Some ex \<Rightarrow>
                \<lparr>stdout = stdout st @ [''ERROR '' @ filename @ '' '' @ message ex],
                 c_error = c_error st + 1,
                 c_async = c_async st,
                 c_await = c_await st\<rparr>)"
proof (cases "snd (tokenize w filename f)")
  case None
  with assms(1) have "leaves w filename = None"
    by (simp add: leaves_def)
  then have "scan_file w filename st = Finished (advance w [filename] st)"
    by (rule scan_file_Finished)
  moreover have "tokens_of w filename = Some (fst (tokenize w filename f))"
    using assms(1) None by (simp add: tokens_of_def)
  moreover have "failure_of w filename = None"
    using assms(1) None by (simp add: failure_of_def)
  ultimately show ?thesis
    by (simp add: None advance_def report_def errors_in_def awaits_in_def asyncs_in_def)
next
  case (Some ex)
  with assms(2) have c: "caught ex"
    by (cases ex) auto
  with assms(1) Some have "leaves w filename = None"
    by (simp add: leaves_def)
  then have "scan_file w filename st = Finished (advance w [filename] st)"
    by (rule scan_file_Finished)
  moreover have "tokens_of w filename = None"
    using assms(1) Some by (simp add: tokens_of_def)
  moreover have "failure_of w filename = Some ex"
    using assms(1) Some c by (simp add: failure_of_def)
  ultimately show ?thesis
    by (simp add: Some advance_def report_def errors_in_def awaits_in_def asyncs_in_def
          error_line_def)
qed

lemma scan_walk_after_exception:
  assumes "endswith name ''.py''"
      and "fopen w (path_join root name) = Inr f"
      and "snd (tokenize w (path_join root name) f) = Some ex"
  shows "(ex = SyntaxError msg \<or> ex = UnicodeDecodeError msg \<longrightarrow>
            scan_walk w ((root, dirs, name # files) # rest) st =
              scan_walk w ((root, dirs, files) # rest)
                (st\<lparr>stdout := stdout st @ [''ERROR '' @ path_join root name @ '' '' @ msg],
                    c_error := c_error st + 1\<rparr>))
       \<and> (ex = OtherException msg \<longrightarrow>
            scan_walk w ((root, dirs, name # files) # rest) st = Uncaught ex st)"
proof (intro conjI impI)
  assume e: "ex = SyntaxError msg \<or> ex = UnicodeDecodeError msg"
  then have c: "caught ex" and m: "message ex = msg"
    by auto
  with assms(2,3) have "leaves w (path_join root name) = None"
    by (simp add: leaves_def)
  then have "scan_name w root name st = Finished (advance w [path_join root name] st)"
    using assms(1) by (simp add: scan_name_def scan_file_Finished)
  then show "scan_walk w ((root, dirs, name # files) # rest) st =
              scan_walk w ((root, dirs, files) # rest)
                (st\<lparr>stdout := stdout st @ [''ERROR '' @ path_join root name @ '' '' @ msg],
                    c_error := c_error st + 1\<rparr>)"
    by (simp add: advance_failure [OF assms(2,3) c] m)
next
  assume "ex = OtherException msg"
  with assms(2,3) have "leaves w (path_join root name) = Some ex"
    by (simp add: leaves_def)
  then have "scan_name w root name st = Uncaught ex st"
    using assms(1) by (simp add: scan_name_def scan_file_Uncaught)
  then show "scan_walk w ((root, dirs, name # files) # rest) st = Uncaught ex st"
    by simp
qed

section \<open>The files that the walk lists\<close>

lemma py_files_walk_under:
  "mset (py_files (walk dirpath e)) = mset (py_under dirpath (forget e))"
  "mset (map (path_join dirpath) (filter (\<lambda>name. endswith name ''.py'') (filenames entries)))
     + mset (py_files (walk_into dirpath entries))
   = mset (py_under_in dirpath (forget_all entries))"
proof (induction dirpath e and dirpath entries rule: walk_walk_into.induct)
  case (1 dirpath)
  show ?case by (simp add: py_files_Nil)
next
  case (2 dirpath to_dir)
  show ?case by (simp add: py_files_Nil)
next
  case (3 dirpath readable entries)
  then show ?case
    by (cases readable) (simp_all add: py_files_Nil py_files_Cons)
next
  case (4 dirpath)
  show ?case by (simp add: py_files_Nil filenames_def)
next
  case (5 dirpath name e entries)
  have app: "py_files (xs @ ys) = py_files xs @ py_files ys" for xs ys
    by (simp add: py_files_def)
  show ?case
  proof (cases e)
    case File
    with 5(2) show ?thesis
      by (simp add: filenames_def py_files_Nil app)
  next
    case (Dir readable below)
    with 5 show ?thesis
      by (simp add: filenames_def app del: forget.simps walk.simps) (simp add: ac_simps)
  next
    case (Symlink to_dir)
    with 5(2) show ?thesis
      by (simp add: filenames_def py_files_Nil app)
  qed
qed

lemma length_filter_mset_cong:
  assumes "mset xs = mset ys"
  shows "length (filter P xs) = length (filter P ys)"
proof -
  have "mset (filter P xs) = mset (filter P ys)"
    by (simp only: mset_filter assms)
  then show ?thesis
    by (rule mset_eq_length)
qed

section \<open>The walk of a file system with links\<close>

lemma is_dir_as_entry: "is_dir (as_entry fs m used e) = node_is_dir fs m used e"
  by (cases e) simp_all

lemma islink_as_entry: "islink (as_entry fs m used e) = node_islink e"
  by (cases e) simp_all

lemma dirnames_as_entries: "dirnames (as_entries fs m used es) = node_dirnames fs m used es"
  by (induction es) (auto simp: dirnames_def node_dirnames_def is_dir_as_entry)

lemma filenames_as_entries: "filenames (as_entries fs m used es) = node_filenames fs m used es"
  by (induction es) (auto simp: filenames_def node_filenames_def is_dir_as_entry)

lemma os_walk_into_returns:
  assumes walk: "\<And>cur dirpath. height cur < depth \<Longrightarrow>
             os_walk depth False fs m dirpath cur used = Some (walk dirpath (as_entry fs m used cur))"
  shows "height_in es < depth \<Longrightarrow>
           os_walk_into depth False fs m dirpath used es
             = Some (walk_into dirpath (as_entries fs m used es))"
proof (induction es)
  case Nil
  show ?case by simp
next
  case (Cons x es)
  obtain name e where x: "x = (name, e)"
    by (cases x)
  from Cons.prems x have he: "height e < depth" and hes: "height_in es < depth"
    by simp_all
  note rest = Cons.IH [OF hes]
  show ?case
  proof (cases e)
    case RegularFile
    with rest x show ?thesis by simp
  next
    case (SymbolicLink target)
    with rest x show ?thesis by simp
  next
    case (Directory readable entries)
    with walk [OF he, of "path_join dirpath name"] rest x show ?thesis
      by simp
  qed
qed

lemma os_walk_returns:
  "height cur < depth \<Longrightarrow>
     os_walk depth False fs m dirpath cur used = Some (walk dirpath (as_entry fs m used cur))"
proof (induction depth arbitrary: cur dirpath)
  case 0
  then show ?case by simp
next
  case (Suc depth)
  show ?case
  proof (cases cur)
    case RegularFile
    then show ?thesis by simp
  next
    case (SymbolicLink target)
    then show ?thesis by simp
  next
    case (Directory readable entries)
    with Suc.prems have "height_in entries < depth"
      by simp
    from os_walk_into_returns [of depth fs m used entries dirpath, OF Suc.IH this] Directory
    show ?thesis
      by (simp add: dirnames_as_entries filenames_as_entries)
  qed
qed

section \<open>The claims\<close>

text \<open>
  C1. For a file that tokenizes, the script prints one line for each token whose type is
  \<open>NAME\<close> and whose string is exactly \<open>await\<close> or \<open>async\<close>, in the order of the tokens;
  the file adds to \<open>c_await\<close> the number of \<open>NAME\<close> tokens spelled \<open>await\<close> and to
  \<open>c_async\<close> the number of \<open>NAME\<close> tokens spelled \<open>async\<close>; a token of another type
  adds nothing, whatever its string, and \<open>c_error\<close> stays as it was.
\<close>

theorem tokenized_file_matches:
  assumes "fopen w filename = Inr f" and "tokenize w filename f = (tokens, None)"
  shows "scan_file w filename st = Finished
           \<lparr>stdout = stdout st @
              map (\<lambda>tok. tok_string tok @ [CHR 0x09] @ filename @ '': '' @ str_pair (tok_start tok))
                (filter (\<lambda>tok. tok_type tok = NAME \<and>
                           (tok_string tok = ''await'' \<or> tok_string tok = ''async'')) tokens),
            c_error = c_error st,
            c_async = c_async st +
              length (filter (\<lambda>tok. tok_type tok = NAME \<and> tok_string tok = ''async'') tokens),
            c_await = c_await st +
              length (filter (\<lambda>tok. tok_type tok = NAME \<and> tok_string tok = ''await'') tokens)\<rparr>"
proof -
  have "leaves w filename = None"
    using assms by (simp add: leaves_def)
  then have "scan_file w filename st = Finished (advance w [filename] st)"
    by (rule scan_file_Finished)
  moreover have "tokens_of w filename = Some tokens"
    using assms by (simp add: tokens_of_def)
  moreover have "failure_of w filename = None"
    using assms by (simp add: failure_of_def)
  ultimately show ?thesis
    by (simp add: advance_def report_def errors_in_def awaits_in_def asyncs_in_def
          match_line_def [abs_def] format_match_def is_match_def [abs_def]
          is_await_def [abs_def] is_async_def [abs_def])
qed

theorem tokenized_file_matches_witness:
  "fopen example ''/r/a.py'' = Inr a_py \<and> tokenize example ''/r/a.py'' a_py = (a_tokens, None) \<and>
   scan_file example ''/r/a.py'' init = Finished
     \<lparr>stdout = [''async'' @ [CHR 0x09] @ ''/r/a.py: (1, 0)'',
                ''await'' @ [CHR 0x09] @ ''/r/a.py: (1, 18)''],
      c_error = 0, c_async = 1, c_await = 1\<rparr>"
proof -
  have 1: "fopen example ''/r/a.py'' = Inr a_py"
    by (simp add: example_def example_fopen_def)
  have 2: "tokenize example ''/r/a.py'' a_py = (a_tokens, None)"
    by (simp add: example_def example_tokenize_def)
  show ?thesis
    using 1 2 tokenized_file_matches [OF 1 2, of init]
    by (simp add: init_def a_tokens_def TokenInfo_def NAME_def str_pair_def str_nat.simps digit_def)
qed

text \<open>
  C2. Every scanned file is to give either its Matches or exactly one FailureRecord,
  never both and never neither, and a file whose tokenization fails is to add one to
  \<open>c_error\<close>. The script does so when the tokenization ends or raises \<open>SyntaxError\<close> or
  \<open>UnicodeDecodeError\<close> (\<open>scan_file_matches_or_failure\<close>). It does not on \<open>/q/e.py\<close>, which
  holds \<open>await(\<close>: the tokenizer yields the \<open>NAME\<close> token \<open>await\<close> and then raises
  \<open>tokenize.TokenError\<close>, which line 28 does not name. The file is scanned and gives
  neither a Match nor an \<open>ERROR\<close> line, \<open>c_error\<close> stays 0, and the run ends there.
\<close>

theorem token_error_file_yields_neither:
  "fopen example ''/q/e.py'' = Inr e_py
   \<and> tokenize example ''/q/e.py'' e_py = (e_tokens, Some (OtherException e_msg))
   \<and> filter is_match e_tokens = [TokenInfo 1 ''await'' (1, 0) (1, 5) e_py]
   \<and> py_files (walk ''/q'' (scandir example ''/q'')) = [''/q/e.py'', ''/q/f.py'']
   \<and> scan_file example ''/q/e.py'' init = Uncaught (OtherException e_msg) init
   \<and> stdout init = [] \<and> c_error init = 0
   \<and> scan_walk example (walk ''/q'' (scandir example ''/q'')) init
       = Uncaught (OtherException e_msg) init"
  by code_simp

text \<open>
  C3. No tokenization error of one file is to end the run: the failure is to become an
  \<open>ERROR\<close> line and one more in \<open>c_error\<close>, and the run is to go on with the next file.
  Lines 26 to 31 do this for \<open>SyntaxError\<close> and \<open>UnicodeDecodeError\<close>
  (\<open>scan_walk_after_exception\<close>) and miss \<open>tokenize.TokenError\<close>, which the same call
  raises on a file that ends inside a bracket or a string. \<open>/q/e.py\<close> holds \<open>await(\<close>:
  the run on \<open>/q\<close> ends with that exception after the two lines of the header, with no
  \<open>ERROR\<close> line and no count; \<open>/q/f.py\<close> is not read and no totals are printed.
\<close>

theorem token_error_leaves_run:
  "fopen example ''/q/e.py'' = Inr e_py \<and>
   tokenize example ''/q/e.py'' e_py = (e_tokens, Some (OtherException e_msg)) \<and>
   main example [''await.py'', ''/q''] =
     Uncaught (OtherException e_msg)
       \<lparr>stdout = [''Directory:  /q'', ''''], c_error = 0, c_async = 0, c_await = 0\<rparr>"
  by code_simp

text \<open>
  C4, as amended. When the run reaches its end, the final \<open>c_error\<close> plus the number of
  files that tokenized is the number of files under the root with a name ending in
  \<open>.py\<close>, those inside a directory that cannot be listed left out: \<open>os.walk\<close> skips such
  a directory, so the script never sees them. A file that tokenizes and has no \<open>NAME\<close>
  token spelled \<open>await\<close> or \<open>async\<close> leaves the state as it was: no line, no count.
\<close>

theorem errors_plus_tokenized_files:
  "(main w argv = Finished st' \<longrightarrow>
      c_error st' +
        length (filter (\<lambda>p. tokens_of w p \<noteq> None)
                  (py_under (abspath w (argv ! 1)) (forget (scandir w (abspath w (argv ! 1))))))
      = length (py_under (abspath w (argv ! 1)) (forget (scandir w (abspath w (argv ! 1))))))
   \<and> (fopen w filename = Inr f \<and> tokenize w filename f = (tokens, None) \<and>
        (\<forall>tok \<in> set tokens. \<not> is_match tok) \<longrightarrow>
      scan_file w filename st = Finished st)"
proof (intro conjI impI)
  assume m: "main w argv = Finished st'"
  let ?ps = "py_files (walk (abspath w (argv ! 1)) (scandir w (abspath w (argv ! 1))))"
  let ?qs = "py_under (abspath w (argv ! 1)) (forget (scandir w (abspath w (argv ! 1))))"
  have pq: "mset ?ps = mset ?qs"
    by (rule py_files_walk_under)
  from main_Finished_D(2,3) [OF m]
  have l: "\<forall>p \<in> set ?ps. leaves w p = None"
    and s: "st' = summary (advance w ?ps (started (abspath w (argv ! 1))))"
    by simp_all
  have "c_error st' = sum_list (map (errors_in w) ?ps)"
    by (simp add: s c_error_summary c_error_advance started_eq)
  with errors_plus_tokenized [OF l]
  have "c_error st' + length (filter (\<lambda>p. tokens_of w p \<noteq> None) ?ps) = length ?ps"
    by simp
  moreover have "length (filter (\<lambda>p. tokens_of w p \<noteq> None) ?ps)
                   = length (filter (\<lambda>p. tokens_of w p \<noteq> None) ?qs)"
    by (rule length_filter_mset_cong [OF pq])
  moreover have "length ?ps = length ?qs"
    by (rule mset_eq_length [OF pq])
  ultimately show "c_error st' + length (filter (\<lambda>p. tokens_of w p \<noteq> None) ?qs) = length ?qs"
    by simp
next
  assume a: "fopen w filename = Inr f \<and> tokenize w filename f = (tokens, None) \<and>
        (\<forall>tok \<in> set tokens. \<not> is_match tok)"
  then have n: "filter is_match tokens = []" "filter is_await tokens = []"
    "filter is_async tokens = []"
    by (auto simp: filter_empty_conv is_match_def is_await_def is_async_def)
  from a have "leaves w filename = None"
    by (simp add: leaves_def)
  moreover have "advance w [filename] st = st"
    using a n by (simp add: advance_tokens [of w filename f])
  ultimately show "scan_file w filename st = Finished st"
    by (simp add: scan_file_Finished)
qed

theorem errors_plus_tokenized_files_witness:
  "main example [''await.py'', ''/r''] = Finished example_final
   \<and> py_under (abspath example ([''await.py'', ''/r''] ! 1))
         (forget (scandir example (abspath example ([''await.py'', ''/r''] ! 1))))
       = [''/r/a.py'', ''/r/b.py'', ''/r/pkg/c.py'', ''/r/pkg/empty.py'']
   \<and> filter (\<lambda>p. tokens_of example p \<noteq> None)
         [''/r/a.py'', ''/r/b.py'', ''/r/pkg/c.py'', ''/r/pkg/empty.py'']
       = [''/r/a.py'', ''/r/pkg/empty.py'']
   \<and> c_error example_final + length [''/r/a.py'', ''/r/pkg/empty.py'']
       = length [''/r/a.py'', ''/r/b.py'', ''/r/pkg/c.py'', ''/r/pkg/empty.py'']
   \<and> fopen example ''/r/pkg/empty.py'' = Inr []
   \<and> tokenize example ''/r/pkg/empty.py'' [] = (empty_tokens, None)
   \<and> \<not> (\<exists>tok \<in> set empty_tokens. is_match tok)
   \<and> scan_file example ''/r/pkg/empty.py'' init = Finished init"
proof -
  have m: "main example [''await.py'', ''/r''] = Finished example_final"
    by code_simp
  have p: "py_under (abspath example ([''await.py'', ''/r''] ! 1))
         (forget (scandir example (abspath example ([''await.py'', ''/r''] ! 1))))
       = [''/r/a.py'', ''/r/b.py'', ''/r/pkg/c.py'', ''/r/pkg/empty.py'']"
    by code_simp
  have t: "filter (\<lambda>p. tokens_of example p \<noteq> None)
         [''/r/a.py'', ''/r/b.py'', ''/r/pkg/c.py'', ''/r/pkg/empty.py'']
       = [''/r/a.py'', ''/r/pkg/empty.py'']"
    by code_simp
  have f: "fopen example ''/r/pkg/empty.py'' = Inr []"
    by code_simp
  have k: "tokenize example ''/r/pkg/empty.py'' [] = (empty_tokens, None)"
    by code_simp
  have n: "\<forall>tok \<in> set empty_tokens. \<not> is_match tok"
    by code_simp
  note c = errors_plus_tokenized_files [of example "[''await.py'', ''/r'']" example_final "''/r/pkg/empty.py''" "[]"
              empty_tokens init]
  from c [THEN conjunct1] m
  have 1: "c_error example_final + length [''/r/a.py'', ''/r/pkg/empty.py'']
       = length [''/r/a.py'', ''/r/b.py'', ''/r/pkg/c.py'', ''/r/pkg/empty.py'']"
    unfolding p t by blast
  from c [THEN conjunct2] f k n
  have 2: "scan_file example ''/r/pkg/empty.py'' init = Finished init"
    by blast
  from n have "\<not> (\<exists>tok \<in> set empty_tokens. is_match tok)"
    by blast
  with m p t 1 f k 2 show ?thesis
    by blast
qed

text \<open>
  C4, as stated, fails: under \<open>/r\<close> there are five files named \<open>*.py\<close>, one of them
  \<open>/r/locked/x.py\<close> in a directory that cannot be listed. The run reaches its end with
  2 errors, and 2 files tokenized: 4, not 5.
\<close>

theorem skipped_directory_not_counted:
  "main example [''await.py'', ''/r''] = Finished example_final
   \<and> c_error example_final = 2
   \<and> py_under ''/r'' (scandir example ''/r'')
       = [''/r/a.py'', ''/r/b.py'', ''/r/pkg/c.py'', ''/r/pkg/empty.py'', ''/r/locked/x.py'']
   \<and> py_files (walk ''/r'' (scandir example ''/r''))
       = [''/r/a.py'', ''/r/b.py'', ''/r/pkg/c.py'', ''/r/pkg/empty.py'']
   \<and> filter (\<lambda>p. tokens_of example p \<noteq> None) (py_files (walk ''/r'' (scandir example ''/r'')))
       = [''/r/a.py'', ''/r/pkg/empty.py'']
   \<and> c_error example_final
         + length (filter (\<lambda>p. tokens_of example p \<noteq> None)
                     (py_files (walk ''/r'' (scandir example ''/r''))))
       \<noteq> length (py_under ''/r'' (scandir example ''/r''))"
  by code_simp

text \<open>
  C5, as amended. A directory that cannot be listed is skipped without a word: \<open>os.walk\<close>,
  called with \<open>onerror\<close> left at \<open>None\<close>, drops the error of \<open>scandir\<close>, yields nothing for
  that directory and goes on with its siblings; a symbolic link is named but not entered,
  so that a cycle of links raises no error either. The run is the run on the tree in
  which every directory that cannot be listed is empty.
\<close>

theorem unreadable_directory_skipped:
  "walk dirpath (Dir False entries) = []
   \<and> walk_into dirpath ((name, Dir False entries) # rest) = walk_into dirpath rest
   \<and> walk_into dirpath ((name, Symlink to_dir) # rest) = walk_into dirpath rest
   \<and> main (w\<lparr>scandir := (\<lambda>p. forget (scandir w p))\<rparr>) argv = main w argv"
  by (simp add: main_def walk_forget scan_walk_scandir)

text \<open>
  C5, as stated, fails: in the example world \<open>/r/locked\<close> cannot be listed, and the run
  on \<open>/r\<close> reaches its end with its totals; \<open>locked\<close> is named among the directories
  of \<open>/r\<close> and no triple is yielded for it, so \<open>/r/locked/x.py\<close> is never opened.
\<close>

theorem unreadable_directory_not_fatal:
  "scandir example ''/r'' =
     Dir True
       [(''a.py'', File), (''b.py'', File), (''d.txt'', File), (''E.PY'', File),
        (''pkg'', Dir True [(''c.py'', File), (''empty.py'', File)]),
        (''locked'', Dir False [(''x.py'', File)]),
        (''loop'', Symlink True)]
   \<and> walk ''/r'' (scandir example ''/r'') =
       [(''/r'', [''pkg'', ''locked'', ''loop''], [''a.py'', ''b.py'', ''d.txt'', ''E.PY'']),
        (''/r/pkg'', [], [''c.py'', ''empty.py''])]
   \<and> main example [''await.py'', ''/r''] = Finished example_final"
  by code_simp

text \<open>
  C6. The loops of lines 18 and 19 open exactly the files whose name ends with \<open>.py\<close>,
  in the order of the walk: a path is scanned if and only if it is \<open>root/name\<close> for a
  name, in the file list of a triple, that is some stem followed by the four characters
  \<open>.py\<close> (so \<open>E.PY\<close> and \<open>d.txt\<close> are not). The other files are never opened: a world
  that differs only in what opening them gives has the same run.
\<close>

theorem only_py_names_scanned:
  "scan_walk w walked st = scan_files w (py_files walked) st
   \<and> (p \<in> set (py_files walked) \<longleftrightarrow>
        (\<exists>root dirs files name. (root, dirs, files) \<in> set walked \<and> name \<in> set files \<and>
           endswith name ''.py'' \<and> p = path_join root name))
   \<and> (endswith name ''.py'' \<longleftrightarrow> (\<exists>stem. name = stem @ ''.py''))
   \<and> ((\<forall>p \<in> set (py_files walked). fopen w' p = fopen w p) \<and> tokenize w' = tokenize w \<longrightarrow>
        scan_walk w' walked st = scan_walk w walked st)"
proof (intro conjI impI)
  show "scan_walk w walked st = scan_files w (py_files walked) st"
    by (rule scan_walk_files)
  show "p \<in> set (py_files walked) \<longleftrightarrow>
        (\<exists>root dirs files name. (root, dirs, files) \<in> set walked \<and> name \<in> set files \<and>
           endswith name ''.py'' \<and> p = path_join root name)"
    by (rule set_py_files)
  show "endswith name ''.py'' \<longleftrightarrow> (\<exists>stem. name = stem @ ''.py'')"
    by (rule endswith_iff)
  assume "(\<forall>p \<in> set (py_files walked). fopen w' p = fopen w p) \<and> tokenize w' = tokenize w"
  then have "scan_files w' (py_files walked) st = scan_files w (py_files walked) st"
    by (intro scan_files_cong) simp_all
  then show "scan_walk w' walked st = scan_walk w walked st"
    by (simp only: scan_walk_files)
qed

theorem only_py_names_scanned_witness:
  "py_files [(''/r'', [''pkg''], [''a.py'', ''d.txt'', ''E.PY''])] = [''/r/a.py'']
   \<and> \<not> endswith ''d.txt'' ''.py'' \<and> \<not> endswith ''E.PY'' ''.py''
   \<and> fopen example_denied ''/r/a.py'' = fopen example ''/r/a.py''
   \<and> tokenize example_denied = tokenize example
   \<and> fopen example_denied ''/r/d.txt'' \<noteq> fopen example ''/r/d.txt''
   \<and> scan_walk example_denied [(''/r'', [''pkg''], [''a.py'', ''d.txt'', ''E.PY''])] init
       = scan_walk example [(''/r'', [''pkg''], [''a.py'', ''d.txt'', ''E.PY''])] init"
proof -
  have p: "py_files [(''/r'', [''pkg''], [''a.py'', ''d.txt'', ''E.PY''])] = [''/r/a.py'']"
    by code_simp
  have n: "\<not> endswith ''d.txt'' ''.py''" "\<not> endswith ''E.PY'' ''.py''"
    by code_simp+
  have f: "\<forall>p \<in> set (py_files [(''/r'', [''pkg''], [''a.py'', ''d.txt'', ''E.PY''])]).
          fopen example_denied p = fopen example p"
    unfolding p by (simp add: example_denied_def)
  have t: "tokenize example_denied = tokenize example"
    by (simp add: example_denied_def)
  have d: "fopen example_denied ''/r/d.txt'' \<noteq> fopen example ''/r/d.txt''"
    by (simp add: example_denied_def example_def example_fopen_def)
  from only_py_names_scanned [of example "[(''/r'', [''pkg''], [''a.py'', ''d.txt'', ''E.PY''])]" init
              "''/r/a.py''" "''a.py''" example_denied] f t
  have "scan_walk example_denied [(''/r'', [''pkg''], [''a.py'', ''d.txt'', ''E.PY''])] init
       = scan_walk example [(''/r'', [''pkg''], [''a.py'', ''d.txt'', ''E.PY''])] init"
    by blast
  moreover from f have "fopen example_denied ''/r/a.py'' = fopen example ''/r/a.py''"
    unfolding p by simp
  ultimately show ?thesis
    using p n t d by blast
qed

text \<open>
  C7. When the run reaches its end, its output is: the line \<open>Directory:  <dir>\<close> and an
  empty line; then, file by file in the order of the walk, either one line
  \<open><string>\t<filename>: <start>\<close> for each \<open>NAME\<close> token spelled \<open>await\<close> or \<open>async\<close>, or
  the one line \<open>ERROR <filename> <message>\<close>; then an empty line and the three totals,
  each after its label (\<open>print\<close> puts one more space after the label's own). On an empty
  root directory the totals are printed all the same, all 0.
\<close>

theorem run_output:
  "(main w argv = Finished st' \<longrightarrow>
      stdout st' =
        [''Directory:  '' @ abspath w (argv ! 1), []]
        @ concat (map (report w)
            (py_files (walk (abspath w (argv ! 1)) (scandir w (abspath w (argv ! 1))))))
        @ [[], ''# of errors:  '' @ str_nat (c_error st'),
           ''# of `await`:  '' @ str_nat (c_await st'),
           ''# of `async`:  '' @ str_nat (c_async st')])
   \<and> (fopen w p = Inr f \<and> tokenize w p f = (tokens, None) \<longrightarrow>
        report w p =
          map (\<lambda>tok. tok_string tok @ [CHR 0x09] @ p @ '': '' @ str_pair (tok_start tok))
            (filter (\<lambda>tok. tok_type tok = NAME \<and>
                       (tok_string tok = ''await'' \<or> tok_string tok = ''async'')) tokens))
   \<and> (fopen w p = Inr f \<and> tokenize w p f = (tokens, Some ex) \<and>
        (ex = SyntaxError msg \<or> ex = UnicodeDecodeError msg) \<longrightarrow>
        report w p = [''ERROR '' @ p @ '' '' @ msg])
   \<and> (2 \<le> length argv \<and> scandir w (abspath w (argv ! 1)) = Dir True [] \<longrightarrow>
        main w argv =
          Finished \<lparr>stdout = [''Directory:  '' @ abspath w (argv ! 1), [], [],
                              ''# of errors:  0'', ''# of `await`:  0'', ''# of `async`:  0''],
                     c_error = 0, c_async = 0, c_await = 0\<rparr>)"
proof (intro conjI impI)
  assume m: "main w argv = Finished st'"
  let ?ps = "py_files (walk (abspath w (argv ! 1)) (scandir w (abspath w (argv ! 1))))"
  let ?a = "advance w ?ps (started (abspath w (argv ! 1)))"
  from main_Finished_D(3) [OF m] have s: "st' = summary ?a" .
  have c: "c_error st' = c_error ?a" "c_await st' = c_await ?a" "c_async st' = c_async ?a"
    by (simp_all add: s summary_eq)
  have "stdout st' = stdout ?a @ [[], ''# of errors:  '' @ str_nat (c_error ?a),
           ''# of `await`:  '' @ str_nat (c_await ?a),
           ''# of `async`:  '' @ str_nat (c_async ?a)]"
    by (simp add: s summary_eq)
  also have "stdout ?a = [''Directory:  '' @ abspath w (argv ! 1), []] @ concat (map (report w) ?ps)"
    by (simp add: stdout_advance started_eq)
  finally show "stdout st' =
        [''Directory:  '' @ abspath w (argv ! 1), []]
        @ concat (map (report w) ?ps)
        @ [[], ''# of errors:  '' @ str_nat (c_error st'),
           ''# of `await`:  '' @ str_nat (c_await st'),
           ''# of `async`:  '' @ str_nat (c_async st')]"
    unfolding c by simp
next
  assume "fopen w p = Inr f \<and> tokenize w p f = (tokens, None)"
  then show "report w p =
          map (\<lambda>tok. tok_string tok @ [CHR 0x09] @ p @ '': '' @ str_pair (tok_start tok))
            (filter (\<lambda>tok. tok_type tok = NAME \<and>
                       (tok_string tok = ''await'' \<or> tok_string tok = ''async'')) tokens)"
    by (simp add: report_tokens [of w p f tokens] match_line_def [abs_def] format_match_def
          is_match_def [abs_def])
next
  assume a: "fopen w p = Inr f \<and> tokenize w p f = (tokens, Some ex) \<and>
        (ex = SyntaxError msg \<or> ex = UnicodeDecodeError msg)"
  then have "caught ex" "message ex = msg"
    by auto
  with a show "report w p = [''ERROR '' @ p @ '' '' @ msg]"
    by (simp add: report_failure [of w p f tokens ex] error_line_def)
next
  assume "2 \<le> length argv \<and> scandir w (abspath w (argv ! 1)) = Dir True []"
  then show "main w argv =
          Finished \<lparr>stdout = [''Directory:  '' @ abspath w (argv ! 1), [], [],
                              ''# of errors:  0'', ''# of `await`:  0'', ''# of `async`:  0''],
                     c_error = 0, c_async = 0, c_await = 0\<rparr>"
    by (simp only: main_empty)
qed

theorem run_output_witness:
  "main example [''await.py'', ''/r''] = Finished example_final
   \<and> stdout example_final =
        [''Directory:  /r'', []]
        @ concat (map (report example) [''/r/a.py'', ''/r/b.py'', ''/r/pkg/c.py'', ''/r/pkg/empty.py''])
        @ [[], ''# of errors:  2'', ''# of `await`:  1'', ''# of `async`:  1'']
   \<and> fopen example ''/r/a.py'' = Inr a_py \<and> tokenize example ''/r/a.py'' a_py = (a_tokens, None)
   \<and> report example ''/r/a.py'' =
        [''async'' @ [CHR 0x09] @ ''/r/a.py: (1, 0)'', ''await'' @ [CHR 0x09] @ ''/r/a.py: (1, 18)'']
   \<and> fopen example ''/r/pkg/c.py'' = Inr c_py
   \<and> tokenize example ''/r/pkg/c.py'' c_py = (c_tokens, Some (UnicodeDecodeError c_msg))
   \<and> report example ''/r/pkg/c.py'' = [''ERROR /r/pkg/c.py '' @ c_msg]
   \<and> 2 \<le> length [''await.py'', ''/empty'']
   \<and> scandir example (abspath example ([''await.py'', ''/empty''] ! 1)) = Dir True []
   \<and> main example [''await.py'', ''/empty''] =
        Finished \<lparr>stdout = [''Directory:  /empty'', [], [],
                            ''# of errors:  0'', ''# of `await`:  0'', ''# of `async`:  0''],
                   c_error = 0, c_async = 0, c_await = 0\<rparr>"
proof -
  have m: "main example [''await.py'', ''/r''] = Finished example_final"
    by code_simp
  have ps: "py_files (walk (abspath example ([''await.py'', ''/r''] ! 1))
                   (scandir example (abspath example ([''await.py'', ''/r''] ! 1))))
       = [''/r/a.py'', ''/r/b.py'', ''/r/pkg/c.py'', ''/r/pkg/empty.py'']"
    by code_simp
  have d: "abspath example ([''await.py'', ''/r''] ! 1) = ''/r''"
    by code_simp
  have ps': "py_files (walk ''/r'' (scandir example ''/r''))
       = [''/r/a.py'', ''/r/b.py'', ''/r/pkg/c.py'', ''/r/pkg/empty.py'']"
    by code_simp
  have n: "str_nat (c_error example_final) = ''2''" "str_nat (c_await example_final) = ''1''"
    "str_nat (c_async example_final) = ''1''"
    by code_simp+
  have fa: "fopen example ''/r/a.py'' = Inr a_py" and ta: "tokenize example ''/r/a.py'' a_py = (a_tokens, None)"
    by code_simp+
  have fc: "fopen example ''/r/pkg/c.py'' = Inr c_py"
    and tc: "tokenize example ''/r/pkg/c.py'' c_py = (c_tokens, Some (UnicodeDecodeError c_msg))"
    by code_simp+
  have l: "2 \<le> length [''await.py'', ''/empty'']"
    by simp
  have e: "scandir example (abspath example ([''await.py'', ''/empty''] ! 1)) = Dir True []"
    by code_simp
  have de: "abspath example ([''await.py'', ''/empty''] ! 1) = ''/empty''"
    by code_simp
  note a = run_output [of example "[''await.py'', ''/r'']" example_final "''/r/a.py''" a_py a_tokens]
  note c = run_output [of example "[''await.py'', ''/empty'']" _ "''/r/pkg/c.py''" c_py c_tokens
              "UnicodeDecodeError c_msg" c_msg]
  from a [THEN conjunct1] m
  have 1: "stdout example_final =
        [''Directory:  /r'', []]
        @ concat (map (report example) [''/r/a.py'', ''/r/b.py'', ''/r/pkg/c.py'', ''/r/pkg/empty.py''])
        @ [[], ''# of errors:  2'', ''# of `await`:  1'', ''# of `async`:  1'']"
    unfolding d ps' n by simp
  from a [THEN conjunct2, THEN conjunct1] fa ta
  have "report example ''/r/a.py'' =
          map (\<lambda>tok. tok_string tok @ [CHR 0x09] @ ''/r/a.py'' @ '': '' @ str_pair (tok_start tok))
            (filter (\<lambda>tok. tok_type tok = NAME \<and>
                       (tok_string tok = ''await'' \<or> tok_string tok = ''async'')) a_tokens)"
    by blast
  also have "\<dots> = [''async'' @ [CHR 0x09] @ ''/r/a.py: (1, 0)'',
                    ''await'' @ [CHR 0x09] @ ''/r/a.py: (1, 18)'']"
    by code_simp
  finally have 2: "report example ''/r/a.py'' =
        [''async'' @ [CHR 0x09] @ ''/r/a.py: (1, 0)'', ''await'' @ [CHR 0x09] @ ''/r/a.py: (1, 18)'']" .
  from c [THEN conjunct2, THEN conjunct2, THEN conjunct1] fc tc
  have "report example ''/r/pkg/c.py'' = [''ERROR '' @ ''/r/pkg/c.py'' @ '' '' @ c_msg]"
    by blast
  then have 3: "report example ''/r/pkg/c.py'' = [''ERROR /r/pkg/c.py '' @ c_msg]"
    by simp
  from c [THEN conjunct2, THEN conjunct2, THEN conjunct2] l e
  have 4: "main example [''await.py'', ''/empty''] =
        Finished \<lparr>stdout = [''Directory:  /empty'', [], [],
                            ''# of errors:  0'', ''# of `await`:  0'', ''# of `async`:  0''],
                   c_error = 0, c_async = 0, c_await = 0\<rparr>"
    unfolding de by simp
  from m 1 fa ta 2 fc tc 3 l e 4 show ?thesis
    by blast
qed

text \<open>
  C8. The run is a function of the world and the arguments, so two runs in one world are
  equal. When only the order in which \<open>os.walk\<close> lists the files changes, a run that
  reaches its end still does, with the same three totals and the same lines, each as
  many times, in another order.
\<close>

theorem order_of_walk_irrelevant:
  assumes "main w argv = Finished st1"
      and "mset (py_files (walk (abspath w (argv ! 1)) (sc (abspath w (argv ! 1)))))
             = mset (py_files (walk (abspath w (argv ! 1)) (scandir w (abspath w (argv ! 1)))))"
  shows "\<exists>st2. main (w\<lparr>scandir := sc\<rparr>) argv = Finished st2 \<and>
           c_error st2 = c_error st1 \<and> c_await st2 = c_await st1 \<and> c_async st2 = c_async st1 \<and>
           mset (stdout st2) = mset (stdout st1)"
proof -
  let ?dir = "abspath w (argv ! 1)"
  let ?ps = "py_files (walk ?dir (scandir w ?dir))"
  let ?qs = "py_files (walk ?dir (sc ?dir))"
  let ?a = "advance w ?ps (started ?dir)"
  let ?b = "advance w ?qs (started ?dir)"
  note d = main_Finished_D [OF assms(1)]
  from assms(2) have "set ?qs = set ?ps"
    by (rule mset_eq_setD)
  with d(2) have "\<forall>p \<in> set ?qs. leaves w p = None"
    by simp
  then have "\<forall>p \<in> set (py_files (walk (abspath (w\<lparr>scandir := sc\<rparr>) (argv ! 1))
                 (scandir (w\<lparr>scandir := sc\<rparr>) (abspath (w\<lparr>scandir := sc\<rparr>) (argv ! 1))))).
               leaves (w\<lparr>scandir := sc\<rparr>) p = None"
    by (simp add: leaves_scandir)
  from main_FinishedI [OF d(1) this]
  have m: "main (w\<lparr>scandir := sc\<rparr>) argv = Finished (summary ?b)"
    by (simp add: advance_scandir)
  have e: "c_error ?b = c_error ?a" "c_await ?b = c_await ?a" "c_async ?b = c_async ?a"
    by (simp_all only: c_error_advance c_await_advance c_async_advance
          sum_list_mset_cong [OF assms(2)])
  have o: "mset (stdout ?b) = mset (stdout ?a)"
    by (simp only: stdout_advance mset_append mset_concat_cong [OF assms(2)])
  have "c_error (summary ?b) = c_error st1" "c_await (summary ?b) = c_await st1"
    "c_async (summary ?b) = c_async st1" "mset (stdout (summary ?b)) = mset (stdout st1)"
    unfolding d(3) by (simp_all add: summary_eq e o del: One_nat_def)
  with m show ?thesis
    by blast
qed

theorem order_of_walk_irrelevant_witness:
  "main example [''await.py'', ''/r''] = Finished example_final
   \<and> mset (py_files (walk (abspath example ([''await.py'', ''/r''] ! 1))
                        (example_reordered (abspath example ([''await.py'', ''/r''] ! 1)))))
       = mset (py_files (walk (abspath example ([''await.py'', ''/r''] ! 1))
                          (scandir example (abspath example ([''await.py'', ''/r''] ! 1)))))
   \<and> main (example\<lparr>scandir := example_reordered\<rparr>) [''await.py'', ''/r'']
       = Finished example_final_reordered
   \<and> stdout example_final_reordered \<noteq> stdout example_final
   \<and> c_error example_final_reordered = c_error example_final
   \<and> c_await example_final_reordered = c_await example_final
   \<and> c_async example_final_reordered = c_async example_final
   \<and> mset (stdout example_final_reordered) = mset (stdout example_final)"
proof -
  have m: "main example [''await.py'', ''/r''] = Finished example_final"
    by code_simp
  have p: "py_files (walk (abspath example ([''await.py'', ''/r''] ! 1))
                        (scandir example (abspath example ([''await.py'', ''/r''] ! 1))))
             = [''/r/a.py'', ''/r/b.py'', ''/r/pkg/c.py'', ''/r/pkg/empty.py'']"
    by code_simp
  have q: "py_files (walk (abspath example ([''await.py'', ''/r''] ! 1))
                        (example_reordered (abspath example ([''await.py'', ''/r''] ! 1))))
             = [''/r/b.py'', ''/r/a.py'', ''/r/pkg/empty.py'', ''/r/pkg/c.py'']"
    by code_simp
  have h: "mset (py_files (walk (abspath example ([''await.py'', ''/r''] ! 1))
                        (example_reordered (abspath example ([''await.py'', ''/r''] ! 1)))))
       = mset (py_files (walk (abspath example ([''await.py'', ''/r''] ! 1))
                          (scandir example (abspath example ([''await.py'', ''/r''] ! 1)))))"
    unfolding p q by (simp add: add_mset_commute)
  have r: "main (example\<lparr>scandir := example_reordered\<rparr>) [''await.py'', ''/r'']
       = Finished example_final_reordered"
    by code_simp
  have d: "stdout example_final_reordered \<noteq> stdout example_final"
    by code_simp
  from order_of_walk_irrelevant [of example "[''await.py'', ''/r'']" example_final example_reordered, OF m h] r
  have "c_error example_final_reordered = c_error example_final
     \<and> c_await example_final_reordered = c_await example_final
     \<and> c_async example_final_reordered = c_async example_final
     \<and> mset (stdout example_final_reordered) = mset (stdout example_final)"
    by auto
  with m h r d show ?thesis
    by blast
qed

text \<open>
  C9. The position in a Match line is \<open>tok.start\<close> as the tokenizer gave it, not
  \<open>tok.end\<close> and with nothing added: \<open>(\<close>, the row in decimal, a comma and a space,
  the column in decimal, \<open>)\<close>; read back as decimal numerals, the two give the row and
  the column. The numbering (rows from 1, columns from 0) is that of
  the tokenizer, which the script passes on.
\<close>

theorem match_shows_token_start:
  assumes "tok_type tok = NAME"
      and "tok_string tok = ''await'' \<or> tok_string tok = ''async''"
  shows "stdout (scan_token filename tok st) =
           stdout st @
           [tok_string tok @ [CHR 0x09] @ filename @ '': ('' @ str_nat (fst (tok_start tok))
              @ '', '' @ str_nat (snd (tok_start tok)) @ '')'']
       \<and> of_decimal (str_nat (fst (tok_start tok))) = fst (tok_start tok)
       \<and> of_decimal (str_nat (snd (tok_start tok))) = snd (tok_start tok)"
  using assms
  by (auto simp: scan_token_def print_def format_match_def str_pair_def Let_def
        of_decimal_str_nat)

theorem match_shows_token_start_witness:
  "tok_type (TokenInfo 1 ''await'' (3, 4) (3, 9) ''    await x'') = NAME
   \<and> (tok_string (TokenInfo 1 ''await'' (3, 4) (3, 9) ''    await x'') = ''await''
        \<or> tok_string (TokenInfo 1 ''await'' (3, 4) (3, 9) ''    await x'') = ''async'')
   \<and> stdout (scan_token ''/r/x.py'' (TokenInfo 1 ''await'' (3, 4) (3, 9) ''    await x'') init)
       = [''await'' @ [CHR 0x09] @ ''/r/x.py: (3, 4)'']"
proof -
  have 1: "tok_type (TokenInfo 1 ''await'' (3, 4) (3, 9) ''    await x'') = NAME"
    by (simp add: TokenInfo_def NAME_def)
  have 2: "tok_string (TokenInfo 1 ''await'' (3, 4) (3, 9) ''    await x'') = ''await''
        \<or> tok_string (TokenInfo 1 ''await'' (3, 4) (3, 9) ''    await x'') = ''async''"
    by (simp add: TokenInfo_def)
  have "stdout (scan_token ''/r/x.py'' (TokenInfo 1 ''await'' (3, 4) (3, 9) ''    await x'') init)
       = stdout init @
           [tok_string (TokenInfo 1 ''await'' (3, 4) (3, 9) ''    await x'') @ [CHR 0x09]
              @ ''/r/x.py'' @ '': (''
              @ str_nat (fst (tok_start (TokenInfo 1 ''await'' (3, 4) (3, 9) ''    await x'')))
              @ '', ''
              @ str_nat (snd (tok_start (TokenInfo 1 ''await'' (3, 4) (3, 9) ''    await x'')))
              @ '')'']"
    by (rule match_shows_token_start [OF 1 2, THEN conjunct1])
  also have "\<dots> = [''await'' @ [CHR 0x09] @ ''/r/x.py: (3, 4)'']"
    by code_simp
  finally show ?thesis
    using 1 2 by blast
qed

text \<open>
  C10. On every file system, whatever its symbolic links lead to, \<open>os.walk\<close> with
  \<open>followlinks=False\<close> returns: a nesting of calls one more than the height of the real
  directory tree is enough, and what it returns is the walk of that tree, on which the
  script runs. The directories it yields are, in order, among the real directories of
  the tree, each of which is listed once: none is visited twice, and when every
  directory can be listed each is visited exactly once. An entry that is a symbolic link
  is never walked into, whether or not it leads to a directory.
\<close>

theorem walk_returns_without_following_links:
  "(height cur < depth \<longrightarrow>
      os_walk depth False fs symloop_max dirpath cur used
        = Some (walk dirpath (as_entry fs symloop_max used cur)))
   \<and> subseq (map fst (walk dirpath e)) (dir_paths dirpath e)
   \<and> length (walk dirpath e) \<le> length (dir_paths dirpath e)
   \<and> (all_readable e \<longrightarrow> map fst (walk dirpath e) = dir_paths dirpath e)
   \<and> walk_into dirpath ((name, Symlink to_dir) # entries) = walk_into dirpath entries"
proof -
  have s: "subseq (map fst (walk dirpath e)) (dir_paths dirpath e)"
    by (rule walk_subseq)
  from list_emb_length [OF s] have "length (walk dirpath e) \<le> length (dir_paths dirpath e)"
    by simp
  with s show ?thesis
    by (simp add: walk_all_readable os_walk_returns)
qed

text \<open>
  In \<open>loop_fs\<close> the walk of \<open>/r\<close> without following links returns within three nested
  calls. With \<open>followlinks=True\<close> it does not: it goes round the cycles until the kernel
  refuses the path, and visits \<open>/r\<close> and \<open>/r/sub\<close> once more for every link that the
  kernel allows (nine directories when it allows 2).
\<close>

theorem walk_returns_without_following_links_witness:
  "height loop_r < 3
   \<and> os_walk 3 False loop_fs 40 ''/r'' loop_r 0
       = Some [(''/r'', [''loop'', ''sub''], [''a.py'', ''self'']), (''/r/sub'', [''up''], [])]
   \<and> as_entry loop_fs 40 0 loop_r
       = Dir True [(''a.py'', File), (''loop'', Symlink True),
                   (''sub'', Dir True [(''up'', Symlink True)]), (''self'', Symlink False)]
   \<and> all_readable (as_entry loop_fs 40 0 loop_r)
   \<and> map fst (walk ''/r'' (as_entry loop_fs 40 0 loop_r)) = [''/r'', ''/r/sub'']
   \<and> dir_paths ''/r'' (as_entry loop_fs 40 0 loop_r) = [''/r'', ''/r/sub'']
   \<and> os_walk 3 True loop_fs 40 ''/r'' loop_r 0 = None
   \<and> map_option (map fst) (os_walk 5 True loop_fs 2 ''/r'' loop_r 0)
       = Some [''/r'', ''/r/loop'', ''/r/loop/loop'', ''/r/loop/loop/sub'', ''/r/loop/sub'',
               ''/r/loop/sub/up'', ''/r/sub'', ''/r/sub/up'', ''/r/sub/up/up'']"
proof -
  have h: "height loop_r < 3"
    by code_simp
  have v: "as_entry loop_fs 40 0 loop_r
       = Dir True [(''a.py'', File), (''loop'', Symlink True),
                   (''sub'', Dir True [(''up'', Symlink True)]), (''self'', Symlink False)]"
    by code_simp
  have a: "all_readable (as_entry loop_fs 40 0 loop_r)"
    unfolding v by simp
  have d: "dir_paths ''/r'' (as_entry loop_fs 40 0 loop_r) = [''/r'', ''/r/sub'']"
    by code_simp
  have w: "walk ''/r'' (as_entry loop_fs 40 0 loop_r)
       = [(''/r'', [''loop'', ''sub''], [''a.py'', ''self'']), (''/r/sub'', [''up''], [])]"
    by code_simp
  note t = walk_returns_without_following_links
    [of loop_r 3 loop_fs 40 "''/r''" 0 "as_entry loop_fs 40 0 loop_r"]
  from t h have "os_walk 3 False loop_fs 40 ''/r'' loop_r 0
                   = Some (walk ''/r'' (as_entry loop_fs 40 0 loop_r))"
    by blast
  then have 1: "os_walk 3 False loop_fs 40 ''/r'' loop_r 0
       = Some [(''/r'', [''loop'', ''sub''], [''a.py'', ''self'']), (''/r/sub'', [''up''], [])]"
    unfolding w .
  from t a have "map fst (walk ''/r'' (as_entry loop_fs 40 0 loop_r))
                   = dir_paths ''/r'' (as_entry loop_fs 40 0 loop_r)"
    by blast
  then have 2: "map fst (walk ''/r'' (as_entry loop_fs 40 0 loop_r)) = [''/r'', ''/r/sub'']"
    unfolding d .
  have 3: "os_walk 3 True loop_fs 40 ''/r'' loop_r 0 = None"
    by code_simp
  have 4: "map_option (map fst) (os_walk 5 True loop_fs 2 ''/r'' loop_r 0)
       = Some [''/r'', ''/r/loop'', ''/r/loop/loop'', ''/r/loop/loop/sub'', ''/r/loop/sub'',
               ''/r/loop/sub/up'', ''/r/sub'', ''/r/sub/up'', ''/r/sub/up/up'']"
    by code_simp
  from h 1 v a 2 d 3 4 show ?thesis
    by blast
qed

end
